theory Spec2Isabelle
  imports Complex_Main "HOL-Library.AList"
begin

section \<open>The MCP server manager of scripts/utils/mcp-manager.py\<close>

text \<open>
  A shallow embedding of class \<^verbatim>\<open>MCPServerManager\<close>: the two dataclasses are records,
  the manager object is a record that every method takes and returns, and everything
  the methods ask of the operating system (process creation, signals, waits, the
  process table, the state files) is answered by a record of functions, \<open>os_env\<close>,
  that is a parameter of every method. The effects a method has on the outside world
  (log lines, sleeps, processes spawned and signalled) are appended to a trace in
  the order the source performs them.
\<close>

subsection \<open>Data model\<close>

type_synonym timestamp = int

text \<open>
  \<^verbatim>\<open>MCPServerStatus\<close> (lines 40-52). The status is the source's string
  (\<^verbatim>\<open>"running"\<close>, \<^verbatim>\<open>"stopped"\<close>, \<^verbatim>\<open>"error"\<close>); the two float fields are reals,
  no property below depends on them.
\<close>

record MCPServerStatus =
  name :: string
  status :: string
  pid :: "int option"
  port :: "int option"
  command :: "string list"
  start_time :: "timestamp option"
  cpu_percent :: real
  memory_mb :: real
  last_health_check :: "timestamp option"
  error_count :: int
  restart_count :: int

text \<open>
  \<^verbatim>\<open>MCPServerConfig\<close> (lines 54-64). The fields \<^verbatim>\<open>name\<close> and \<^verbatim>\<open>command\<close> carry the
  prefix \<open>cfg_\<close>, since a record field is a constant of the theory and the status
  record has them already.
\<close>

record MCPServerConfig =
  cfg_name :: string
  cfg_command :: "string list"
  args :: "string list option"
  env :: "(string \<times> string) list option"
  auto_start :: bool
  auto_restart :: bool
  health_check_url :: "string option"
  max_restarts :: int
  restart_delay :: int

text \<open>
  The JSON object a state file holds (lines 309-316). The two counters are read back
  with \<^verbatim>\<open>.get(key, 0)\<close>, so they are optional here.
\<close>

record state_data =
  sd_name :: string
  sd_status :: string
  sd_pid :: "int option"
  sd_start_time :: "timestamp option"
  sd_restart_count :: "int option"
  sd_error_count :: "int option"

text \<open>
  What a state file holds: the JSON object, or nothing that \<^verbatim>\<open>json.load\<close> can read. The
  second is the file as \<^verbatim>\<open>open(state_file, 'w')\<close> leaves it (line 308: the mode
  \<^verbatim>\<open>'w'\<close> truncates it) when the write that follows fails.
\<close>

datatype file_content = Json state_data | Truncated

datatype level = INFO | WARNING | ERROR

datatype signal = SIGTERM | SIGKILL

datatype py_error = ValueError | IndexError | OSError

text \<open>
  What a method does to the outside world: a line of the logger (level, message,
  the server or file it is about), \<^verbatim>\<open>time.sleep\<close>, a process created by
  \<^verbatim>\<open>subprocess.Popen\<close> (its command and the pid it got), a signal to a process group
  (\<^verbatim>\<open>os.killpg(os.getpgid(pid), sig)\<close>) or, where the platform has no \<^verbatim>\<open>killpg\<close>, to the
  process alone, \<^verbatim>\<open>process.wait(timeout=..)\<close>, and a state file written with its content.
\<close>

datatype event =
    Log level string string
  | Sleep int
  | Spawn "string list" int
  | Killpg int signal
  | Terminate int
  | Kill int
  | Wait int int
  | Write string state_data

text \<open>
  \<^verbatim>\<open>psutil.Process(pid)\<close> raises \<^verbatim>\<open>NoSuchProcess\<close> or \<^verbatim>\<open>AccessDenied\<close>, or returns a
  process object; of that object the source reads \<^verbatim>\<open>is_running()\<close>, \<^verbatim>\<open>cpu_percent()\<close>
  and \<^verbatim>\<open>memory_info().rss\<close>, the last two \<open>None\<close> where the call raises one of
  the two exceptions.
\<close>

datatype psutil_result =
    NoSuchProcess
  | AccessDenied
  | Process bool "real option" "int option"

text \<open>
  The operating system as the manager sees it during one call.
  \<open>prepare_raises n\<close>: lines 154-162 and the opening of the two log files raise for
  server \<open>n\<close> (the module reads \<^verbatim>\<open>os.environ\<close> there, and imports \<^verbatim>\<open>os\<close> only inside
  \<^verbatim>\<open>main\<close>; a \<^verbatim>\<open>NameError\<close> is an \<^verbatim>\<open>Exception\<close> and takes the same handler as a
  directory that cannot be created).
  \<open>spawn argv\<close>: the process creation of \<^verbatim>\<open>subprocess.Popen\<close> for a non-empty command,
  an error (binary missing, permission denied) or the pid of the child.
  \<open>poll p\<close>: \<^verbatim>\<open>process.poll()\<close> after the one-second pause, the return code when the child
  has exited. \<open>signal_raises p sig\<close>: signalling the process (group) of \<open>p\<close> raises.
  \<open>wait_times_out p\<close>: \<^verbatim>\<open>process.wait(timeout=10)\<close> raises \<^verbatim>\<open>TimeoutExpired\<close>.
  \<open>open_raises n\<close>: \<^verbatim>\<open>open(state_file, 'w')\<close> raises for the state file of \<open>n\<close> (line
  308), which is then as it was. \<open>write_raises n\<close>: the file was opened, and so
  truncated, and \<^verbatim>\<open>json.dump\<close> or the closing of the file raises.
\<close>

record os_env =
  now :: timestamp
  has_killpg :: bool
  prepare_raises :: "string \<Rightarrow> bool"
  spawn :: "string list \<Rightarrow> py_error + int"
  poll :: "int \<Rightarrow> int option"
  signal_raises :: "int \<Rightarrow> signal \<Rightarrow> bool"
  wait_times_out :: "int \<Rightarrow> bool"
  psutil_Process :: "int \<Rightarrow> psutil_result"
  open_raises :: "string \<Rightarrow> bool"
  write_raises :: "string \<Rightarrow> bool"

text \<open>
  The manager object (lines 69-82). \<open>server_configs\<close> is iterated by the monitor in
  insertion order, so it is an association list; \<open>processes\<close> maps a name to the pid of
  its \<^verbatim>\<open>Popen\<close> handle; \<open>state_files\<close> is the content of the runtime directory, one
  entry per \<^verbatim>\<open>NAME.state\<close>.
\<close>

record manager =
  server_configs :: "(string \<times> MCPServerConfig) list"
  servers :: "string \<rightharpoonup> MCPServerStatus"
  processes :: "string \<rightharpoonup> int"
  state_files :: "(string \<times> file_content) list"
  monitoring_enabled :: bool
  trace :: "event list"

subsection \<open>Helpers\<close>

definition emit :: "event \<Rightarrow> manager \<Rightarrow> manager" where
  "emit e s = s\<lparr>trace := trace s @ [e]\<rparr>"

text \<open>Python's truth value of an \<^verbatim>\<open>Optional[int]\<close>: \<^verbatim>\<open>None\<close> and \<open>0\<close> are false.\<close>

definition truthy :: "int option \<Rightarrow> bool" where
  "truthy p = (case p of None \<Rightarrow> False | Some v \<Rightarrow> v \<noteq> 0)"

text \<open>
  \<^verbatim>\<open>subprocess.Popen(argv, ...)\<close>: the executable is \<^verbatim>\<open>argv[0]\<close>, so an empty command
  raises \<^verbatim>\<open>IndexError\<close> before any process is created.
\<close>

definition Popen :: "os_env \<Rightarrow> string list \<Rightarrow> py_error + int" where
  "Popen os argv = (if argv = [] then Inl IndexError else spawn os argv)"

text \<open>\<^verbatim>\<open>time.sleep(d)\<close> raises \<^verbatim>\<open>ValueError\<close> for a negative \<open>d\<close>.\<close>

definition sleep :: "int \<Rightarrow> manager \<Rightarrow> py_error option \<times> manager" where
  "sleep d s = (if d < 0 then (Some ValueError, s) else (None, emit (Sleep d) s))"

text \<open>An assignment to one field of \<^verbatim>\<open>self.servers[n]\<close>, when the entry exists.\<close>

definition update_server :: "string \<Rightarrow> (MCPServerStatus \<Rightarrow> MCPServerStatus) \<Rightarrow> manager \<Rightarrow> manager" where
  "update_server n f s =
     (case servers s n of
        None \<Rightarrow> s
      | Some server \<Rightarrow> s\<lparr>servers := (servers s)(n \<mapsto> f server)\<rparr>)"

subsection \<open>Persistence\<close>

text \<open>
  \<^verbatim>\<open>_save_server_state\<close> (lines 301-319). The file is opened with mode \<^verbatim>\<open>'w'\<close> before
  anything is written: when the opening raises the file is as it was, when the write
  raises the file has lost what it held. Both failures are logged and swallowed.
\<close>

definition save_server_state :: "os_env \<Rightarrow> string \<Rightarrow> manager \<Rightarrow> manager" where
  "save_server_state os n s =
     (case servers s n of
        None \<Rightarrow> s
      | Some server \<Rightarrow>
          if open_raises os n
          then emit (Log ERROR ''Failed to save server state'' n) s
          else if write_raises os n
          then emit (Log ERROR ''Failed to save server state'' n)
                 (s\<lparr>state_files := AList.update n Truncated (state_files s)\<rparr>)
          else
            let state_data =
                  \<lparr>sd_name = name server, sd_status = status server, sd_pid = pid server,
                   sd_start_time = start_time server,
                   sd_restart_count = Some (restart_count server),
                   sd_error_count = Some (error_count server)\<rparr>
            in emit (Write n state_data)
                 (s\<lparr>state_files := AList.update n (Json state_data) (state_files s)\<rparr>))"

subsection \<open>start, stop, restart\<close>

text \<open>
  \<^verbatim>\<open>start_server\<close> (lines 137-203). The status record of line 178 is a new object: its
  \<open>error_count\<close> and \<open>restart_count\<close> are the defaults of the dataclass. Lines 154-162
  raise where \<open>prepare_raises\<close> says so, which as the module is written is for every
  server (\<open>os_unbound\<close> below); the definition follows the method for both answers.
\<close>

definition start_server :: "os_env \<Rightarrow> string \<Rightarrow> bool \<Rightarrow> manager \<Rightarrow> bool \<times> manager" where
  "start_server os n force s =
     (case map_of (server_configs s) n of
        None \<Rightarrow> (False, emit (Log ERROR ''Server configuration not found'' n) s)
      | Some config \<Rightarrow>
          if (case servers s n of None \<Rightarrow> False | Some server \<Rightarrow> status server = ''running'')
             \<and> \<not> force
          then (True, emit (Log INFO ''Server is already running'' n) s)
          else
            let s1 = emit (Log INFO ''Starting MCP server'' n) s;
                full_command = cfg_command config @ (case args config of None \<Rightarrow> [] | Some a \<Rightarrow> a);
                failed = (\<lambda>t. (False, update_server n (\<lambda>server. server\<lparr>status := ''error''\<rparr>)
                                   (emit (Log ERROR ''Failed to start MCP server'' n) t)))
            in if prepare_raises os n then failed s1
               else
                 (case Popen os full_command of
                   Inl e \<Rightarrow> failed s1
                 | Inr p \<Rightarrow>
                     let s2 = emit (Spawn full_command p) s1;
                         s3 = s2\<lparr>processes := (processes s2)(n \<mapsto> p),
                                 servers := (servers s2)(n \<mapsto>
                                   \<lparr>name = n, status = ''running'', pid = Some p, port = None,
                                    command = full_command, start_time = Some (now os),
                                    cpu_percent = 0, memory_mb = 0, last_health_check = None,
                                    error_count = 0, restart_count = 0\<rparr>)\<rparr>;
                         s4 = emit (Sleep 1) s3
                     in if poll os p = None
                        then (True, save_server_state os n
                                      (emit (Log INFO ''MCP server started successfully'' n) s4))
                        else (False, update_server n (\<lambda>server. server\<lparr>status := ''error''\<rparr>)
                                       (emit (Log ERROR ''MCP server failed to start'' n) s4))))"

text \<open>
  Lines 222-243: the signals of \<^verbatim>\<open>stop_server\<close>. \<open>Inl\<close> is the state at the moment an
  exception leaves the block.
\<close>

definition send_signal :: "os_env \<Rightarrow> int \<Rightarrow> signal \<Rightarrow> manager \<Rightarrow> manager + manager" where
  "send_signal os p sig s =
     (if signal_raises os p sig then Inl s
      else Inr (emit (if has_killpg os then Killpg p sig
                      else (case sig of SIGKILL \<Rightarrow> Kill p | SIGTERM \<Rightarrow> Terminate p)) s))"

definition kill_process :: "os_env \<Rightarrow> string \<Rightarrow> int \<Rightarrow> bool \<Rightarrow> manager \<Rightarrow> manager + manager" where
  "kill_process os n p force s =
     (if force then send_signal os p SIGKILL s
      else
        (case send_signal os p SIGTERM s of
          Inl t \<Rightarrow> Inl t
        | Inr s1 \<Rightarrow>
            let s2 = emit (Wait p 10) s1
            in if wait_times_out os p
               then send_signal os p SIGKILL
                      (emit (Log WARNING ''Server did not shutdown gracefully, force killing'' n) s2)
               else Inr s2))"

text \<open>\<^verbatim>\<open>stop_server\<close> (lines 205-257).\<close>

definition stop_server :: "os_env \<Rightarrow> string \<Rightarrow> bool \<Rightarrow> manager \<Rightarrow> bool \<times> manager" where
  "stop_server os n force s =
     (case servers s n of
        None \<Rightarrow> (True, emit (Log WARNING ''Server not found in managed servers'' n) s)
      | Some server \<Rightarrow>
          if status server \<noteq> ''running''
          then (True, emit (Log INFO ''Server is not running'' n) s)
          else
            let s1 = emit (Log INFO ''Stopping MCP server'' n) s;
                killed = (case processes s1 n of
                            None \<Rightarrow> Inr s1
                          | Some p \<Rightarrow>
                              (case kill_process os n p force s1 of
                                 Inl t \<Rightarrow> Inl t
                               | Inr t \<Rightarrow> Inr (t\<lparr>processes := (processes t)(n := None)\<rparr>)))
            in (case killed of
                 Inl t \<Rightarrow> (False, emit (Log ERROR ''Failed to stop MCP server'' n) t)
               | Inr s2 \<Rightarrow>
                   let s3 = update_server n (\<lambda>server. server\<lparr>status := ''stopped'', pid := None\<rparr>) s2
                   in (True, save_server_state os n
                               (emit (Log INFO ''MCP server stopped successfully'' n) s3))))"

text \<open>\<^verbatim>\<open>restart_server\<close> (lines 259-272).\<close>

definition restart_server :: "os_env \<Rightarrow> string \<Rightarrow> manager \<Rightarrow> bool \<times> manager" where
  "restart_server os n s =
     (let s1 = emit (Log INFO ''Restarting MCP server'' n) s;
          s2 = update_server n (\<lambda>server. server\<lparr>restart_count := restart_count server + 1\<rparr>) s1;
          (stopped, s3) = stop_server os n False s2
      in if stopped then start_server os n False (emit (Sleep 2) s3) else (False, s3))"

subsection \<open>Status and health checks\<close>

text \<open>
  The body of the loop of \<^verbatim>\<open>_update_server_metrics\<close> (lines 286-293) for one server.
  \<^verbatim>\<open>cpu_percent\<close> is assigned before \<^verbatim>\<open>memory_info()\<close> is called, so it is kept when the
  second call raises.
\<close>

definition refresh_metrics :: "os_env \<Rightarrow> MCPServerStatus \<Rightarrow> MCPServerStatus" where
  "refresh_metrics os server =
     (if status server = ''running'' \<and> truthy (pid server)
      then (case pid server of
              None \<Rightarrow> server
            | Some p \<Rightarrow>
                (case psutil_Process os p of
                   Process r (Some cpu) (Some rss) \<Rightarrow>
                     server\<lparr>cpu_percent := cpu, memory_mb := real_of_int rss / 1024 / 1024\<rparr>
                 | Process r (Some cpu) None \<Rightarrow>
                     server\<lparr>cpu_percent := cpu, status := ''stopped'', pid := None\<rparr>
                 | _ \<Rightarrow> server\<lparr>status := ''stopped'', pid := None\<rparr>))
      else server)"

text \<open>
  \<^verbatim>\<open>_update_server_metrics\<close> (lines 283-293): every entry is refreshed, and an
  iteration touches its own entry only.
\<close>

definition update_server_metrics :: "os_env \<Rightarrow> manager \<Rightarrow> manager" where
  "update_server_metrics os s = s\<lparr>servers := (\<lambda>n. map_option (refresh_metrics os) (servers s n))\<rparr>"

text \<open>\<^verbatim>\<open>get_server_status\<close> (lines 274-281); an empty name is false in Python.\<close>

definition get_server_status ::
  "os_env \<Rightarrow> string option \<Rightarrow> manager \<Rightarrow> (string \<rightharpoonup> MCPServerStatus) \<times> manager" where
  "get_server_status os server_name s =
     (let s1 = update_server_metrics os s
      in (case server_name of
            None \<Rightarrow> (servers s1, s1)
          | Some n \<Rightarrow>
              if n = [] then (servers s1, s1)
              else (case servers s1 n of
                      None \<Rightarrow> (Map.empty, s1)
                    | Some server \<Rightarrow> ([n \<mapsto> server], s1))))"

text \<open>\<^verbatim>\<open>_health_check_server\<close> (lines 420-442).\<close>

definition health_check_server :: "os_env \<Rightarrow> string \<Rightarrow> manager \<Rightarrow> bool \<times> manager" where
  "health_check_server os n s =
     (case servers s n of
        None \<Rightarrow> (False, s)
      | Some server \<Rightarrow>
          if status server \<noteq> ''running'' then (False, s)
          else if truthy (pid server)
          then (case pid server of
                  None \<Rightarrow> (True, s)
                | Some p \<Rightarrow>
                    (case psutil_Process os p of
                       Process True cpu rss \<Rightarrow> (True, s)
                     | _ \<Rightarrow> (False, update_server n (\<lambda>server. server\<lparr>status := ''stopped'', pid := None\<rparr>) s)))
          else (True, s))"

subsection \<open>The monitor\<close>

text \<open>
  One iteration of the \<^verbatim>\<open>for\<close> loop of \<^verbatim>\<open>_monitor_servers\<close> (lines 387-412), for the
  item \<open>(n, config)\<close>. The first component is the exception that leaves the iteration:
  only \<^verbatim>\<open>time.sleep(config.restart_delay)\<close> can raise here, \<^verbatim>\<open>start_server\<close>,
  \<^verbatim>\<open>stop_server\<close> and the health check catch their own.

  Line 409 assigns \<^verbatim>\<open>server.error_count = 0\<close> through the reference taken at line 391.
  When \<^verbatim>\<open>restart_server\<close> has replaced the entry (line 178), that reference is the old
  object and the entry is a new record whose \<open>error_count\<close> is 0 already; otherwise
  it is the entry. In both cases the entry holds 0 afterwards, which is what the
  update of the current entry writes.
\<close>

definition monitor_server ::
  "os_env \<Rightarrow> string \<Rightarrow> MCPServerConfig \<Rightarrow> manager \<Rightarrow> py_error option \<times> manager" where
  "monitor_server os n config s =
     (if \<not> auto_restart config then (None, s)
      else
        (case servers s n of
           None \<Rightarrow> (None, s)
         | Some server \<Rightarrow>
             if auto_start config \<and> status server \<noteq> ''running''
             then
               (if restart_count server < max_restarts config
                then
                  (case sleep (restart_delay config)
                          (emit (Log INFO ''Auto-restarting failed server'' n) s) of
                     (Some e, s1) \<Rightarrow> (Some e, s1)
                   | (None, s1) \<Rightarrow> (None, snd (start_server os n False s1)))
                else (None, s))
             else if status server = ''running''
             then
               (case health_check_server os n s of
                  (False, s1) \<Rightarrow>
                    let s2 = update_server n (\<lambda>server. server\<lparr>error_count := error_count server + 1\<rparr>) s1
                    in if (case servers s2 n of None \<Rightarrow> False | Some server \<Rightarrow> error_count server \<ge> 3)
                       then
                         let s3 = emit (Log WARNING ''Server failed health checks, restarting'' n) s2;
                             s4 = snd (restart_server os n s3)
                         in (None, update_server n (\<lambda>server. server\<lparr>error_count := 0\<rparr>) s4)
                       else (None, s2)
                | (True, s1) \<Rightarrow>
                    (None, update_server n
                             (\<lambda>server. server\<lparr>error_count := 0, last_health_check := Some (now os)\<rparr>) s1))
             else (None, s)))"

text \<open>The \<^verbatim>\<open>for\<close> loop over \<^verbatim>\<open>self.server_configs.items()\<close>: an exception ends it.\<close>

fun monitor_pass ::
  "os_env \<Rightarrow> (string \<times> MCPServerConfig) list \<Rightarrow> manager \<Rightarrow> py_error option \<times> manager" where
  "monitor_pass os [] s = (None, s)"
| "monitor_pass os ((n, config) # rest) s =
     (case monitor_server os n config s of
        (Some e, s1) \<Rightarrow> (Some e, s1)
      | (None, s1) \<Rightarrow> monitor_pass os rest s1)"

text \<open>
  One turn of the \<^verbatim>\<open>while\<close> loop (lines 386-418): the pass and the sleep inside
  \<^verbatim>\<open>try\<close>, then the handler, which logs and sleeps again. An exception of the handler's
  own sleep (a negative interval) leaves the thread.
\<close>

definition monitor_tick :: "os_env \<Rightarrow> int \<Rightarrow> manager \<Rightarrow> py_error option \<times> manager" where
  "monitor_tick os interval s =
     (case (case monitor_pass os (server_configs s) s of
              (Some e, s1) \<Rightarrow> (Some e, s1)
            | (None, s1) \<Rightarrow> sleep interval s1) of
        (None, s2) \<Rightarrow> (None, s2)
      | (Some e, s2) \<Rightarrow> sleep interval (emit (Log ERROR ''Error in monitoring thread'' []) s2))"

text \<open>
  \<^verbatim>\<open>_monitor_servers\<close>: the loop runs while \<^verbatim>\<open>monitoring_enabled\<close> holds, which another
  thread clears, so it has no bound of its own. The list gives the operating system's
  answers turn by turn; the run stops when the list is used up.
\<close>

fun monitor_servers :: "os_env list \<Rightarrow> int \<Rightarrow> manager \<Rightarrow> manager" where
  "monitor_servers [] interval s = s"
| "monitor_servers (os # rest) interval s =
     (if monitoring_enabled s
      then (case monitor_tick os interval s of
              (None, s1) \<Rightarrow> monitor_servers rest interval s1
            | (Some e, s1) \<Rightarrow> s1)
      else s)"

subsection \<open>Start-up and deployment\<close>

text \<open>
  The body of the loop of \<^verbatim>\<open>_load_server_states\<close> (lines 324-361) for one state file.
  \<^verbatim>\<open>json.load\<close> raises on a file that holds no JSON object; \<^verbatim>\<open>psutil.Process\<close>
  refuses a negative pid with \<^verbatim>\<open>ValueError\<close>; these and the exception of \<^verbatim>\<open>Popen\<close> at
  line 340 are not among those of the inner handler and reach the outer one, which logs
  and goes on to the next file.
\<close>

definition load_server_state :: "os_env \<Rightarrow> string \<times> file_content \<Rightarrow> manager \<Rightarrow> manager" where
  "load_server_state os file s =
     (case file of
        (stem, Truncated) \<Rightarrow> emit (Log ERROR ''Failed to load server state'' stem) s
      | (stem, Json state_data) \<Rightarrow>
        let server_name = sd_name state_data;
            failed = emit (Log ERROR ''Failed to load server state'' stem) s;
            register = (\<lambda>st t.
              t\<lparr>servers := (servers t)(server_name \<mapsto>
                  \<lparr>name = server_name, status = st,
                   pid = (if st = ''running'' then sd_pid state_data else None),
                   port = None,
                   command = (case map_of (server_configs t) server_name of
                                None \<Rightarrow> [] | Some config \<Rightarrow> cfg_command config),
                   start_time = sd_start_time state_data,
                   cpu_percent = 0, memory_mb = 0, last_health_check = None,
                   error_count = (case sd_error_count state_data of None \<Rightarrow> 0 | Some c \<Rightarrow> c),
                   restart_count = (case sd_restart_count state_data of None \<Rightarrow> 0 | Some c \<Rightarrow> c)\<rparr>)\<rparr>)
        in if map_of (server_configs s) server_name = None then s
           else if \<not> truthy (sd_pid state_data) then register ''stopped'' s
           else
             (case sd_pid state_data of
                None \<Rightarrow> register ''stopped'' s
              | Some p \<Rightarrow>
                  if p < 0 then failed
                  else
                    (case psutil_Process os p of
                       Process True cpu rss \<Rightarrow>
                         (case Popen os [] of
                            Inl e \<Rightarrow> failed
                          | Inr q \<Rightarrow>
                              register ''running''
                                (emit (Spawn [] q) (s\<lparr>processes := (processes s)(server_name \<mapsto> p)\<rparr>)))
                     | _ \<Rightarrow> register ''stopped'' s)))"

text \<open>\<^verbatim>\<open>_load_server_states\<close>: every file of the runtime directory in turn.\<close>

definition load_server_states :: "os_env \<Rightarrow> manager \<Rightarrow> manager" where
  "load_server_states os s = fold (load_server_state os) (state_files s) s"

text \<open>
  \<^verbatim>\<open>__init__\<close>: no server and no process is known; the configurations are those of the
  configuration file.
\<close>

definition init_manager :: "(string \<times> MCPServerConfig) list \<Rightarrow> (string \<times> file_content) list \<Rightarrow> manager" where
  "init_manager configs files =
     \<lparr>server_configs = configs, servers = Map.empty, processes = Map.empty,
      state_files = files, monitoring_enabled = False, trace = []\<rparr>"

text \<open>
  \<^verbatim>\<open>deploy_server\<close> (lines 463-487): the configuration file is rewritten with the new
  entry and read back; \<open>io_raises\<close> says that reading or writing it raised. Nothing
  of the runtime state is touched.
\<close>

definition deploy_server :: "bool \<Rightarrow> string \<Rightarrow> MCPServerConfig \<Rightarrow> manager \<Rightarrow> bool \<times> manager" where
  "deploy_server io_raises n config s =
     (if io_raises then (False, emit (Log ERROR ''Failed to deploy server'' n) s)
      else (True, emit (Log INFO ''Deployed MCP server configuration'' n)
                    (s\<lparr>server_configs := AList.update n (config\<lparr>cfg_name := n\<rparr>) (server_configs s)\<rparr>)))"

text \<open>\<^verbatim>\<open>start_monitoring\<close> (lines 363-373) sets the flag the loop of the monitor thread reads.\<close>

definition start_monitoring :: "manager \<Rightarrow> manager" where
  "start_monitoring s = s\<lparr>monitoring_enabled := True\<rparr>"

subsection \<open>Observations\<close>

definition restart_count_of :: "manager \<Rightarrow> string \<Rightarrow> int option" where
  "restart_count_of s n = map_option restart_count (servers s n)"

definition error_count_of :: "manager \<Rightarrow> string \<Rightarrow> int option" where
  "error_count_of s n = map_option error_count (servers s n)"

definition status_of :: "manager \<Rightarrow> string \<Rightarrow> string option" where
  "status_of s n = map_option status (servers s n)"

definition pid_of :: "manager \<Rightarrow> string \<Rightarrow> int option option" where
  "pid_of s n = map_option pid (servers s n)"

text \<open>How often the monitor has announced an automatic restart of \<open>n\<close> (line 398).\<close>

definition auto_restarts :: "manager \<Rightarrow> string \<Rightarrow> nat" where
  "auto_restarts s n = count_list (trace s) (Log INFO ''Auto-restarting failed server'' n)"


subsection \<open>What an operation leaves alone\<close>

text \<open>
  \<open>untouched n s s'\<close>: going from \<open>s\<close> to \<open>s'\<close> the configurations, the entry and
  the process handle of server \<open>n\<close> are as they were, and no line of the log about
  \<open>n\<close> was written.
\<close>

definition untouched :: "string \<Rightarrow> manager \<Rightarrow> manager \<Rightarrow> bool" where
  "untouched n s s' =
     (server_configs s' = server_configs s \<and> servers s' n = servers s n \<and>
      processes s' n = processes s n \<and>
      (\<exists>evs. trace s' = trace s @ evs \<and> (\<forall>l msg. Log l msg n \<notin> set evs)))"

text \<open>The state a block of \<^verbatim>\<open>stop_server\<close> ends in, whether it raised or not.\<close>

definition state_of :: "manager + manager \<Rightarrow> manager" where
  "state_of r = (case r of Inl t \<Rightarrow> t | Inr t \<Rightarrow> t)"

subsection \<open>Names for the steps and the conditions of the operations\<close>


text \<open>What \<^verbatim>\<open>_save_server_state\<close> adds to the trace.\<close>

definition save_events :: "os_env \<Rightarrow> string \<Rightarrow> manager \<Rightarrow> event list" where
  "save_events os n s =
     (case servers s n of
        None \<Rightarrow> []
      | Some server \<Rightarrow>
          if open_raises os n \<or> write_raises os n then [Log ERROR ''Failed to save server state'' n]
          else [Write n \<lparr>sd_name = name server, sd_status = status server, sd_pid = pid server,
                   sd_start_time = start_time server,
                   sd_restart_count = Some (restart_count server),
                   sd_error_count = Some (error_count server)\<rparr>])"

text \<open>Lines 175-185 of \<^verbatim>\<open>start_server\<close>: the handle is stored and a new status record is built.\<close>

definition register :: "os_env \<Rightarrow> string \<Rightarrow> string list \<Rightarrow> int \<Rightarrow> manager \<Rightarrow> manager" where
  "register os n full_command p s =
     s\<lparr>processes := (processes s)(n \<mapsto> p),
       servers := (servers s)(n \<mapsto>
         \<lparr>name = n, status = ''running'', pid = Some p, port = None,
          command = full_command, start_time = Some (now os),
          cpu_percent = 0, memory_mb = 0, last_health_check = None,
          error_count = 0, restart_count = 0\<rparr>)\<rparr>"

text \<open>Line 154.\<close>

definition full_command :: "MCPServerConfig \<Rightarrow> string list" where
  "full_command config = cfg_command config @ (case args config of None \<Rightarrow> [] | Some a \<Rightarrow> a)"

text \<open>The negation of the test of line 144.\<close>

definition may_start :: "manager \<Rightarrow> string \<Rightarrow> bool \<Rightarrow> bool" where
  "may_start s n force =
     (force \<or> (case servers s n of None \<Rightarrow> True | Some server \<Rightarrow> status server \<noteq> ''running''))"

text \<open>The pid of the child, when lines 154-172 raise nothing.\<close>

definition launch :: "os_env \<Rightarrow> string \<Rightarrow> MCPServerConfig \<Rightarrow> int option" where
  "launch os n config =
     (if prepare_raises os n then None
      else (case Popen os (full_command config) of Inl e \<Rightarrow> None | Inr p \<Rightarrow> Some p))"

text \<open>Line 151.\<close>

definition starting :: "string \<Rightarrow> manager \<Rightarrow> manager" where
  "starting n s = emit (Log INFO ''Starting MCP server'' n) s"

text \<open>The state after the pause of line 188.\<close>

definition spawned :: "os_env \<Rightarrow> string \<Rightarrow> MCPServerConfig \<Rightarrow> int \<Rightarrow> manager \<Rightarrow> manager" where
  "spawned os n config p s =
     emit (Sleep 1)
       (register os n (full_command config) p (emit (Spawn (full_command config) p) (starting n s)))"

text \<open>Lines 261-265 of \<^verbatim>\<open>restart_server\<close>: the log line and the increment.\<close>

definition incremented :: "string \<Rightarrow> manager \<Rightarrow> manager" where
  "incremented n s =
     update_server n (\<lambda>server. server\<lparr>restart_count := restart_count server + 1\<rparr>)
       (emit (Log INFO ''Restarting MCP server'' n) s)"

text \<open>The event of a signal (lines 224-227, 230-233, 240-243).\<close>

definition signal_event :: "os_env \<Rightarrow> int \<Rightarrow> signal \<Rightarrow> event" where
  "signal_event os p sig =
     (if has_killpg os then Killpg p sig
      else (case sig of SIGKILL \<Rightarrow> Kill p | SIGTERM \<Rightarrow> Terminate p))"

text \<open>
  A signal call of lines 222-243 raises for the process \<open>p\<close>: with \<open>force\<close> the
  SIGKILL, without it the SIGTERM or, after a wait that timed out, the SIGKILL.
\<close>

definition signals_raise :: "os_env \<Rightarrow> int \<Rightarrow> bool \<Rightarrow> bool" where
  "signals_raise os p force =
     (if force then signal_raises os p SIGKILL
      else signal_raises os p SIGTERM \<or> (wait_times_out os p \<and> signal_raises os p SIGKILL))"



text \<open>The JSON object \<^verbatim>\<open>_save_server_state\<close> writes for a status record (lines 309-316).\<close>

definition saved_record :: "MCPServerStatus \<Rightarrow> state_data" where
  "saved_record server =
     \<lparr>sd_name = name server, sd_status = status server, sd_pid = pid server,
      sd_start_time = start_time server,
      sd_restart_count = Some (restart_count server),
      sd_error_count = Some (error_count server)\<rparr>"

text \<open>The status record of line 178, for the child \<open>p\<close>.\<close>

definition new_status :: "os_env \<Rightarrow> string \<Rightarrow> MCPServerConfig \<Rightarrow> int \<Rightarrow> MCPServerStatus" where
  "new_status os n config p =
     \<lparr>name = n, status = ''running'', pid = Some p, port = None,
      command = full_command config, start_time = Some (now os),
      cpu_percent = 0, memory_mb = 0, last_health_check = None,
      error_count = 0, restart_count = 0\<rparr>"

subsection \<open>The states of a session\<close>

text \<open>
  A status record is in order when, if it says running, it has a pid that Python holds
  for true.
\<close>

definition entry_ok :: "MCPServerStatus \<Rightarrow> bool" where
  "entry_ok server = (status server = ''running'' \<longrightarrow> truthy (pid server))"

text \<open>
  Every entry of the manager is in order.
\<close>

definition running_has_pid :: "manager \<Rightarrow> bool" where
  "running_has_pid s = (\<forall>n server. servers s n = Some server \<longrightarrow> entry_ok server)"

text \<open>
  From \<open>s\<close> to \<open>s'\<close> every entry is in order or has the status and the pid of the
  entry it had.
\<close>

definition safe_step :: "manager \<Rightarrow> manager \<Rightarrow> bool" where
  "safe_step s s' =
     (\<forall>m new. servers s' m = Some new \<longrightarrow>
        entry_ok new \<or> (\<exists>old. servers s m = Some old \<and> status new = status old \<and> pid new = pid old))"

text \<open>
  A status record is sound for a process handle when, if it says running, no failed
  health check is on its count and the manager holds a handle.
\<close>

definition entry_sound :: "int option \<Rightarrow> MCPServerStatus \<Rightarrow> bool" where
  "entry_sound handle server =
     (status server = ''running'' \<longrightarrow> error_count server = 0 \<and> handle \<noteq> None)"

text \<open>
  Every entry of the manager is sound for the handle the manager has under its name.
\<close>

definition running_sound :: "manager \<Rightarrow> bool" where
  "running_sound s = (\<forall>n server. servers s n = Some server \<longrightarrow> entry_sound (processes s n) server)"


text \<open>
  The pid of a new process is positive.
\<close>

definition pids_positive :: "os_env \<Rightarrow> bool" where
  "pids_positive os = (\<forall>argv p. spawn os argv = Inr p \<longrightarrow> 0 < p)"

text \<open>
  \<^verbatim>\<open>_update_server_metrics\<close> gets through lines 288-290 without an exception.
\<close>

definition metrics_readable :: "psutil_result \<Rightarrow> bool" where
  "metrics_readable r = (case r of Process running (Some cpu) (Some rss) \<Rightarrow> True | _ \<Rightarrow> False)"

text \<open>
  \<^verbatim>\<open>psutil.Process(pid)\<close> returns a process and \<^verbatim>\<open>is_running()\<close> is true (lines 429-430).
\<close>

definition is_running :: "psutil_result \<Rightarrow> bool" where
  "is_running r = (case r of Process True cpu rss \<Rightarrow> True | _ \<Rightarrow> False)"

text \<open>
  The states of one session: the manager as \<^verbatim>\<open>__init__\<close> leaves it, and every state an
  operation of the command line or a turn of the monitor leads to. Operations are taken
  one at a time; each finds the operating system in any condition.
\<close>

inductive reachable :: "manager \<Rightarrow> bool" where
  init: "reachable (init_manager configs files)"
| load: "reachable s \<Longrightarrow> reachable (load_server_states os s)"
| start: "reachable s \<Longrightarrow> pids_positive os \<Longrightarrow> reachable (snd (start_server os n force s))"
| stop: "reachable s \<Longrightarrow> reachable (snd (stop_server os n force s))"
| restart: "reachable s \<Longrightarrow> pids_positive os \<Longrightarrow> reachable (snd (restart_server os n s))"
| status: "reachable s \<Longrightarrow> reachable (snd (get_server_status os server_name s))"
| deploy: "reachable s \<Longrightarrow> reachable (snd (deploy_server io_raises n config s))"
| monitoring: "reachable s \<Longrightarrow> reachable (start_monitoring s)"
| tick: "reachable s \<Longrightarrow> pids_positive os \<Longrightarrow> reachable (snd (monitor_tick os interval s))"

section \<open>Concrete inputs\<close>

text \<open>
  The server of the specification's scenario: \<^verbatim>\<open>sleep 9999\<close>, restarted automatically,
  at most twice, one second apart.
\<close>

definition alpha_config :: MCPServerConfig where
  "alpha_config =
     \<lparr>cfg_name = ''alpha'', cfg_command = [''sleep''], args = Some [''9999''], env = None,
      auto_start = True, auto_restart = True, health_check_url = None,
      max_restarts = 2, restart_delay = 1\<rparr>"

text \<open>
  An operating system where everything works: processes are created with pid 4242 and
  stay alive, signals are delivered, a signalled process exits in time, files are
  written.
\<close>

definition os_quiet :: os_env where
  "os_quiet =
     \<lparr>now = 100, has_killpg = True, prepare_raises = (\<lambda>n. False), spawn = (\<lambda>argv. Inr 4242),
      poll = (\<lambda>p. None), signal_raises = (\<lambda>p sig. False), wait_times_out = (\<lambda>p. False),
      psutil_Process = (\<lambda>p. Process True (Some 0) (Some 0)), open_raises = (\<lambda>n. False),
      write_raises = (\<lambda>n. False)\<rparr>"

text \<open>The same, but the binary cannot be executed; the child exits at once; the process
  has left the process table.\<close>

definition os_no_binary :: os_env where
  "os_no_binary = os_quiet\<lparr>spawn := (\<lambda>argv. Inl OSError)\<rparr>"

definition os_exits_early :: os_env where
  "os_exits_early = os_quiet\<lparr>poll := (\<lambda>p. Some 1)\<rparr>"

definition os_process_gone :: os_env where
  "os_process_gone = os_quiet\<lparr>psutil_Process := (\<lambda>p. NoSuchProcess)\<rparr>"

text \<open>The same, but the disk is full: a state file can be opened and nothing can be written
  to it; the runtime directory is read-only: no state file can be opened for writing; no
  signal may be sent.\<close>

definition os_disk_full :: os_env where
  "os_disk_full = os_quiet\<lparr>write_raises := (\<lambda>n. True)\<rparr>"

definition os_read_only :: os_env where
  "os_read_only = os_quiet\<lparr>open_raises := (\<lambda>n. True)\<rparr>"

definition os_signal_denied :: os_env where
  "os_signal_denied = os_quiet\<lparr>signal_raises := (\<lambda>p sig. True)\<rparr>"

text \<open>
  The system as the module as written meets it: what is not a use of \<^verbatim>\<open>os\<close> works, every
  use of \<^verbatim>\<open>os\<close> raises.
\<close>

definition os_name_error :: os_env where
  "os_name_error = os_quiet\<lparr>prepare_raises := (\<lambda>n. True), signal_raises := (\<lambda>p sig. True)\<rparr>"

definition fresh :: manager where
  "fresh = init_manager [(''alpha'', alpha_config)] []"

definition alpha_running :: manager where
  "alpha_running = snd (start_server os_quiet ''alpha'' False fresh)"

text \<open>
  A second server, \<open>beta\<close>, configured like \<open>alpha\<close> but with \<open>auto_restart\<close>
  off and a \<open>restart_delay\<close> of 5 seconds; started, and then stopped by the operator.
\<close>

definition beta_config :: MCPServerConfig where
  "beta_config = alpha_config\<lparr>cfg_name := ''beta'', auto_restart := False, restart_delay := 5\<rparr>"

definition beta_running :: manager where
  "beta_running = snd (start_server os_quiet ''beta'' False (init_manager [(''beta'', beta_config)] []))"

definition beta_stopped :: manager where
  "beta_stopped = snd (stop_server os_quiet ''beta'' False beta_running)"

text \<open>\<open>alpha\<close> after the monitor has found its process gone.\<close>

definition alpha_vanished :: manager where
  "alpha_vanished = snd (monitor_tick os_process_gone 30 (start_monitoring alpha_running))"

text \<open>A state file of \<open>alpha\<close> left by an earlier session, with the pid of a process.\<close>

definition alpha_record :: state_data where
  "alpha_record =
     \<lparr>sd_name = ''alpha'', sd_status = ''running'', sd_pid = Some 4242,
      sd_start_time = Some 100, sd_restart_count = Some 1, sd_error_count = Some 0\<rparr>"

text \<open>
  The manager of a new session that finds the record of \<open>alpha\<close> and no process with
  its pid, with the monitor switched on.
\<close>

definition alpha_reloaded :: manager where
  "alpha_reloaded =
     start_monitoring
       (load_server_states os_process_gone
          (init_manager [(''alpha'', alpha_config)] [(''alpha'', Json alpha_record)]))"


text \<open>
  The monitor's view of \<open>alpha\<close> between two turns when its binary is missing: configured,
  monitored, not running, and with a restart count of \<open>c\<close>.
\<close>

definition parked_alpha :: "int \<Rightarrow> manager \<Rightarrow> bool" where
  "parked_alpha c s =
     (server_configs s = [(''alpha'', alpha_config)] \<and> monitoring_enabled s \<and>
      (case servers s ''alpha'' of
         None \<Rightarrow> False
       | Some server \<Rightarrow> status server \<noteq> ''running'' \<and> restart_count server = c))"

section \<open>Properties\<close>

lemmas manager_defs =
  start_server_def stop_server_def restart_server_def kill_process_def send_signal_def
  update_server_def save_server_state_def emit_def Popen_def sleep_def truthy_def
  health_check_server_def monitor_server_def monitor_tick_def refresh_metrics_def
  update_server_metrics_def get_server_status_def load_server_states_def load_server_state_def
  init_manager_def deploy_server_def start_monitoring_def Let_def

lemmas observation_defs =
  restart_count_of_def error_count_of_def status_of_def pid_of_def auto_restarts_def

lemmas input_defs =
  alpha_config_def os_quiet_def os_no_binary_def os_exits_early_def os_process_gone_def
  fresh_def alpha_running_def alpha_vanished_def alpha_record_def
  beta_config_def beta_running_def beta_stopped_def os_disk_full_def os_signal_denied_def
  alpha_reloaded_def os_read_only_def os_name_error_def

subsection \<open>Operations on one server leave the others alone\<close>

lemma untouched_refl: "untouched n s s"
  by (simp add: untouched_def)

lemma untouched_trans: "untouched n s t \<Longrightarrow> untouched n t u \<Longrightarrow> untouched n s u"
  by (auto simp: untouched_def)

lemma untouched_emit: "(\<And>l msg. e \<noteq> Log l msg n) \<Longrightarrow> untouched n s (emit e s)"
  by (auto simp: untouched_def emit_def)

lemma untouched_update_server: "m \<noteq> n \<Longrightarrow> untouched n s (update_server m f s)"
  by (auto simp: untouched_def update_server_def split: option.splits)

lemma untouched_save: "m \<noteq> n \<Longrightarrow> untouched n s (save_server_state os m s)"
  by (auto simp: untouched_def save_server_state_def emit_def Let_def split: option.splits)

lemma untouched_start_server: "m \<noteq> n \<Longrightarrow> untouched n s (snd (start_server os m force s))"
  by (auto simp: untouched_def start_server_def save_server_state_def update_server_def emit_def Let_def
           split: option.splits sum.splits)


lemma state_of_simps [simp]: "state_of (Inl t) = t" "state_of (Inr t) = t"
  by (simp_all add: state_of_def)

lemma untouched_send_signal: "untouched n s (state_of (send_signal os p sig s))"
  by (simp add: send_signal_def untouched_refl untouched_emit split: signal.splits)

lemma untouched_kill_process:
  assumes "m \<noteq> n"
  shows "untouched n s (state_of (kill_process os m p force s))"
proof (cases force)
  case True
  then show ?thesis by (simp add: kill_process_def untouched_send_signal)
next
  case False
  show ?thesis
  proof (cases "send_signal os p SIGTERM s")
    case (Inl t)
    with untouched_send_signal [of n s os p SIGTERM] False show ?thesis
      by (simp add: kill_process_def)
  next
    case (Inr s1)
    with untouched_send_signal [of n s os p SIGTERM] have 1: "untouched n s s1"
      by simp
    let ?s2 = "emit (Wait p 10) s1"
    have 2: "untouched n s ?s2"
      by (rule untouched_trans [OF 1]) (simp add: untouched_emit)
    let ?s3 = "emit (Log WARNING ''Server did not shutdown gracefully, force killing'' m) ?s2"
    have 3: "untouched n s ?s3"
      by (rule untouched_trans [OF 2]) (use assms in \<open>simp add: untouched_emit\<close>)
    have 4: "untouched n s (state_of (send_signal os p SIGKILL ?s3))"
      by (rule untouched_trans [OF 3]) (rule untouched_send_signal)
    show ?thesis
    proof (cases "wait_times_out os p")
      case True
      with 4 Inr False show ?thesis by (simp add: kill_process_def Let_def)
    next
      case no: False
      with 2 Inr False show ?thesis by (simp add: kill_process_def Let_def)
    qed
  qed
qed

lemma untouched_processes: "m \<noteq> n \<Longrightarrow> untouched n s (s\<lparr>processes := (processes s)(m := v)\<rparr>)"
  by (simp add: untouched_def)

lemma untouched_stopped:
  assumes "m \<noteq> n" and "untouched n s t"
  shows "untouched n s
        (save_server_state os m (emit (Log INFO ''MCP server stopped successfully'' m)
           (update_server m (\<lambda>server. server\<lparr>status := ''stopped'', pid := None\<rparr>) t)))"
proof -
  let ?a = "update_server m (\<lambda>server. server\<lparr>status := ''stopped'', pid := None\<rparr>) t"
  let ?b = "emit (Log INFO ''MCP server stopped successfully'' m) ?a"
  have a: "untouched n s ?a"
    by (rule untouched_trans [OF assms(2)]) (rule untouched_update_server [OF assms(1)])
  have b: "untouched n s ?b"
    by (rule untouched_trans [OF a]) (use assms(1) in \<open>simp add: untouched_emit\<close>)
  show ?thesis
    by (rule untouched_trans [OF b]) (rule untouched_save [OF assms(1)])
qed

lemma untouched_stop_server:
  assumes "m \<noteq> n"
  shows "untouched n s (snd (stop_server os m force s))"
proof (cases "servers s m")
  case None
  with assms show ?thesis by (simp add: stop_server_def untouched_emit)
next
  case sv: (Some server)
  show ?thesis
  proof (cases "status server = ''running''")
    case False
    with sv assms show ?thesis by (simp add: stop_server_def untouched_emit)
  next
    case True
    let ?s1 = "emit (Log INFO ''Stopping MCP server'' m) s"
    have 1: "untouched n s ?s1" using assms by (simp add: untouched_emit)
    have p1: "processes ?s1 m = processes s m" by (simp add: emit_def)
    show ?thesis
    proof (cases "processes s m")
      case None
      with sv True p1 untouched_stopped [OF assms 1] show ?thesis
        by (simp add: stop_server_def Let_def)
    next
      case (Some p)
      have k: "untouched n s (state_of (kill_process os m p force ?s1))"
        by (rule untouched_trans [OF 1]) (rule untouched_kill_process [OF assms])
      show ?thesis
      proof (cases "kill_process os m p force ?s1")
        case (Inl t)
        with k have "untouched n s t" by simp
        then have "untouched n s (emit (Log ERROR ''Failed to stop MCP server'' m) t)"
          by (rule untouched_trans) (use assms in \<open>simp add: untouched_emit\<close>)
        with Inl Some p1 sv True show ?thesis
          by (simp add: stop_server_def Let_def)
      next
        case (Inr t)
        with k have "untouched n s t" by simp
        then have "untouched n s (t\<lparr>processes := (processes t)(m := None)\<rparr>)"
          by (rule untouched_trans) (rule untouched_processes [OF assms])
        from untouched_stopped [OF assms this] Inr Some p1 sv True show ?thesis
          by (simp add: stop_server_def Let_def)
      qed
    qed
  qed
qed


lemma untouched_emit_after:
  "untouched n s t \<Longrightarrow> (\<And>l msg. e \<noteq> Log l msg n) \<Longrightarrow> untouched n s (emit e t)"
  by (erule untouched_trans) (rule untouched_emit)

lemma untouched_update_server_after:
  "untouched n s t \<Longrightarrow> m \<noteq> n \<Longrightarrow> untouched n s (update_server m f t)"
  by (erule untouched_trans) (rule untouched_update_server)

lemma untouched_start_server_after:
  "untouched n s t \<Longrightarrow> m \<noteq> n \<Longrightarrow> untouched n s (snd (start_server os m force t))"
  by (erule untouched_trans) (rule untouched_start_server)

lemma untouched_stop_server_after:
  "untouched n s t \<Longrightarrow> m \<noteq> n \<Longrightarrow> untouched n s (snd (stop_server os m force t))"
  by (erule untouched_trans) (rule untouched_stop_server)

lemma untouched_restart_server:
  assumes "m \<noteq> n"
  shows "untouched n s (snd (restart_server os m s))"
proof -
  let ?s2 = "update_server m (\<lambda>server. server\<lparr>restart_count := restart_count server + 1\<rparr>)
               (emit (Log INFO ''Restarting MCP server'' m) s)"
  have a: "untouched n s ?s2"
    using assms by (intro untouched_update_server_after untouched_emit_after) (simp_all add: untouched_refl)
  have b: "untouched n s (snd (stop_server os m False ?s2))"
    using a assms by (rule untouched_stop_server_after)
  have c: "untouched n s (snd (start_server os m False (emit (Sleep 2) (snd (stop_server os m False ?s2)))))"
    by (rule untouched_start_server_after [OF untouched_emit_after [OF b] assms]) simp
  show ?thesis
    using b c by (auto simp: restart_server_def Let_def split: prod.splits)
qed

lemma untouched_restart_server_after:
  "untouched n s t \<Longrightarrow> m \<noteq> n \<Longrightarrow> untouched n s (snd (restart_server os m t))"
  by (erule untouched_trans) (rule untouched_restart_server)

lemma untouched_health_check: "m \<noteq> n \<Longrightarrow> untouched n s (snd (health_check_server os m s))"
  by (simp add: health_check_server_def untouched_refl untouched_update_server
           split: option.splits psutil_result.splits bool.splits)

lemma untouched_monitor_server:
  assumes "m \<noteq> n"
  shows "untouched n s (snd (monitor_server os m config s))"
proof (cases "servers s m")
  case None
  then show ?thesis by (simp add: monitor_server_def untouched_refl)
next
  case sv: (Some server)
  let ?s1 = "emit (Log INFO ''Auto-restarting failed server'' m) s"
  have 1: "untouched n s ?s1"
    using assms by (intro untouched_emit_after) (simp_all add: untouched_refl)
  have start: "untouched n s (snd (start_server os m False (emit (Sleep (restart_delay config)) ?s1)))"
    by (rule untouched_start_server_after [OF untouched_emit_after [OF 1] assms]) simp
  let ?h = "snd (health_check_server os m s)"
  have h: "untouched n s ?h"
    using assms by (rule untouched_health_check)
  let ?s2 = "update_server m (\<lambda>server. server\<lparr>error_count := error_count server + 1\<rparr>) ?h"
  have 2: "untouched n s ?s2"
    using h assms by (rule untouched_update_server_after)
  have 3: "untouched n s (update_server m (\<lambda>server. server\<lparr>error_count := 0\<rparr>)
            (snd (restart_server os m (emit (Log WARNING ''Server failed health checks, restarting'' m) ?s2))))"
    by (rule untouched_update_server_after
          [OF untouched_restart_server_after [OF untouched_emit_after [OF 2] assms] assms])
       (use assms in simp)
  have 4: "untouched n s (update_server m
             (\<lambda>server. server\<lparr>error_count := 0, last_health_check := Some (now os)\<rparr>) ?h)"
    using h assms by (rule untouched_update_server_after)
  obtain ok t where r: "health_check_server os m s = (ok, t)"
    by (cases "health_check_server os m s")
  with 2 3 4 have r2: "untouched n s (update_server m (\<lambda>server. server\<lparr>error_count := error_count server + 1\<rparr>) t)"
    and r3: "untouched n s (update_server m (\<lambda>server. server\<lparr>error_count := 0\<rparr>)
            (snd (restart_server os m (emit (Log WARNING ''Server failed health checks, restarting'' m)
               (update_server m (\<lambda>server. server\<lparr>error_count := error_count server + 1\<rparr>) t)))))"
    and r4: "untouched n s (update_server m
             (\<lambda>server. server\<lparr>error_count := 0, last_health_check := Some (now os)\<rparr>) t)"
    by simp_all
  show ?thesis
    using sv 1 start r r2 r3 r4
    by (cases ok) (simp_all add: monitor_server_def sleep_def Let_def untouched_refl)
qed

lemma monitor_server_no_error:
  "0 \<le> restart_delay config \<Longrightarrow> fst (monitor_server os m config s) = None"
  by (simp add: monitor_server_def sleep_def Let_def split: option.splits prod.splits bool.splits)

lemma monitor_pass_untouched:
  assumes "n \<notin> fst ` set cfgs"
  shows "untouched n s (snd (monitor_pass os cfgs s))"
  using assms
proof (induction cfgs arbitrary: s)
  case Nil
  then show ?case by (simp add: untouched_refl)
next
  case (Cons a cfgs)
  obtain m config where a: "a = (m, config)" by (cases a)
  with Cons.prems have mn: "m \<noteq> n" and rest: "n \<notin> fst ` set cfgs" by auto
  obtain e t where r: "monitor_server os m config s = (e, t)"
    by (cases "monitor_server os m config s")
  with untouched_monitor_server [OF mn, of s os config] have t: "untouched n s t" by simp
  show ?case
  proof (cases e)
    case None
    with a r untouched_trans [OF t Cons.IH [OF rest, of t]] show ?thesis by simp
  next
    case (Some err)
    with a r t show ?thesis by simp
  qed
qed

lemma monitor_pass_no_error:
  assumes "\<forall>(m, c) \<in> set cfgs. 0 \<le> restart_delay c"
  shows "fst (monitor_pass os cfgs s) = None"
  using assms
proof (induction cfgs arbitrary: s)
  case Nil
  then show ?case by simp
next
  case (Cons a cfgs)
  obtain m config where a: "a = (m, config)" by (cases a)
  with Cons.prems have d: "0 \<le> restart_delay config" by simp
  obtain e t where r: "monitor_server os m config s = (e, t)"
    by (cases "monitor_server os m config s")
  with monitor_server_no_error [OF d, of os m s] have "e = None" by simp
  with a r Cons show ?case by simp
qed

subsection \<open>Fields after each step, and the five ways \<^verbatim>\<open>start_server\<close> ends\<close>

lemma emit_fields:
  "trace (emit e s) = trace s @ [e]"
  "servers (emit e s) = servers s"
  "processes (emit e s) = processes s"
  "server_configs (emit e s) = server_configs s"
  "state_files (emit e s) = state_files s"
  "monitoring_enabled (emit e s) = monitoring_enabled s"
  by (simp_all add: emit_def)

lemma update_server_fields:
  "trace (update_server n f s) = trace s"
  "processes (update_server n f s) = processes s"
  "server_configs (update_server n f s) = server_configs s"
  "state_files (update_server n f s) = state_files s"
  "monitoring_enabled (update_server n f s) = monitoring_enabled s"
  by (simp_all add: update_server_def split: option.splits)

lemma update_server_servers:
  "servers (update_server n f s) m = (if m = n then map_option f (servers s n) else servers s m)"
  by (simp add: update_server_def split: option.splits)

lemma save_server_state_fields:
  "trace (save_server_state os n s) = trace s @ save_events os n s"
  "servers (save_server_state os n s) = servers s"
  "processes (save_server_state os n s) = processes s"
  "server_configs (save_server_state os n s) = server_configs s"
  "monitoring_enabled (save_server_state os n s) = monitoring_enabled s"
  by (simp_all add: save_server_state_def save_events_def emit_def Let_def split: option.splits)


lemma register_fields:
  "trace (register os n c p s) = trace s"
  "server_configs (register os n c p s) = server_configs s"
  "state_files (register os n c p s) = state_files s"
  "monitoring_enabled (register os n c p s) = monitoring_enabled s"
  "processes (register os n c p s) = (processes s)(n \<mapsto> p)"
  by (simp_all add: register_def)

lemma register_servers:
  "servers (register os n c p s) =
     (servers s)(n \<mapsto>
         \<lparr>name = n, status = ''running'', pid = Some p, port = None,
          command = c, start_time = Some (now os),
          cpu_percent = 0, memory_mb = 0, last_health_check = None,
          error_count = 0, restart_count = 0\<rparr>)"
  by (simp add: register_def)

lemma start_server_no_config:
  assumes "map_of (server_configs s) n = None"
  shows "start_server os n force s = (False, emit (Log ERROR ''Server configuration not found'' n) s)"
  using assms by (simp add: start_server_def)

lemma start_server_already:
  assumes "map_of (server_configs s) n = Some config" and "\<not> may_start s n force"
  shows "start_server os n force s = (True, emit (Log INFO ''Server is already running'' n) s)"
  using assms by (auto simp: start_server_def may_start_def split: option.splits)

lemma may_start_cond:
  "may_start s n force \<Longrightarrow>
   ((case servers s n of None \<Rightarrow> False | Some server \<Rightarrow> status server = ''running'') \<and> \<not> force) = False"
  by (auto simp: may_start_def split: option.splits)

lemma launch_Some:
  "launch os n config = Some p \<longleftrightarrow>
     \<not> prepare_raises os n \<and> Popen os (full_command config) = Inr p"
  by (simp add: launch_def split: sum.splits)

lemma launch_None:
  "launch os n config = None \<longleftrightarrow>
     prepare_raises os n \<or> (\<exists>e. Popen os (full_command config) = Inl e)"
  by (auto simp: launch_def split: sum.splits)

lemma start_server_raised:
  assumes "map_of (server_configs s) n = Some config" and "may_start s n force"
    and "launch os n config = None"
  shows "start_server os n force s =
        (False, update_server n (\<lambda>server. server\<lparr>status := ''error''\<rparr>)
                  (emit (Log ERROR ''Failed to start MCP server'' n) (starting n s)))"
proof (cases "prepare_raises os n")
  case True
  with assms(1) show ?thesis
    by (simp add: start_server_def Let_def may_start_cond [OF assms(2)] starting_def)
next
  case False
  with assms(3) obtain e where "Popen os (full_command config) = Inl e"
    by (auto simp: launch_None)
  with assms(1) False show ?thesis
    by (simp add: start_server_def Let_def may_start_cond [OF assms(2)] starting_def
                  full_command_def)
qed

lemma start_server_exited:
  assumes "map_of (server_configs s) n = Some config" and "may_start s n force"
    and "launch os n config = Some p" and "poll os p \<noteq> None"
  shows "start_server os n force s =
        (False, update_server n (\<lambda>server. server\<lparr>status := ''error''\<rparr>)
                  (emit (Log ERROR ''MCP server failed to start'' n) (spawned os n config p s)))"
proof -
  from assms(3) have "\<not> prepare_raises os n" and "Popen os (full_command config) = Inr p"
    by (simp_all add: launch_Some)
  with assms(1,4) show ?thesis
    by (simp add: start_server_def Let_def may_start_cond [OF assms(2)] full_command_def
                  starting_def spawned_def register_def emit_def)
qed

lemma start_server_started:
  assumes "map_of (server_configs s) n = Some config" and "may_start s n force"
    and "launch os n config = Some p" and "poll os p = None"
  shows "start_server os n force s =
        (True, save_server_state os n
                 (emit (Log INFO ''MCP server started successfully'' n) (spawned os n config p s)))"
proof -
  from assms(3) have "\<not> prepare_raises os n" and "Popen os (full_command config) = Inr p"
    by (simp_all add: launch_Some)
  with assms(1,4) show ?thesis
    by (simp add: start_server_def Let_def may_start_cond [OF assms(2)] full_command_def
                  starting_def spawned_def register_def emit_def)
qed

text \<open>The five ways \<^verbatim>\<open>start_server\<close> ends.\<close>

lemma start_server_cases:
  obtains
    (no_config) "map_of (server_configs s) n = None"
  | (already) config where "map_of (server_configs s) n = Some config" "\<not> may_start s n force"
  | (raised) config where "map_of (server_configs s) n = Some config" "may_start s n force"
      "launch os n config = None"
  | (exited) config p where "map_of (server_configs s) n = Some config" "may_start s n force"
      "launch os n config = Some p" "poll os p \<noteq> None"
  | (started) config p where "map_of (server_configs s) n = Some config" "may_start s n force"
      "launch os n config = Some p" "poll os p = None"
proof (cases "map_of (server_configs s) n")
  case None
  then show ?thesis by (rule no_config)
next
  case (Some config)
  show ?thesis
  proof (cases "may_start s n force")
    case False
    with Some show ?thesis by (rule already)
  next
    case True
    show ?thesis
    proof (cases "launch os n config")
      case None
      with Some True show ?thesis by (rule raised)
    next
      case l: (Some p)
      show ?thesis
      proof (cases "poll os p = None")
        case True
        with Some \<open>may_start s n force\<close> l show ?thesis by (rule started)
      next
        case False
        with Some \<open>may_start s n force\<close> l show ?thesis by (rule exited)
      qed
    qed
  qed
qed

lemma spawned_fields:
  "trace (spawned os n config p s)
     = trace s @ [Log INFO ''Starting MCP server'' n, Spawn (full_command config) p, Sleep 1]"
  "server_configs (spawned os n config p s) = server_configs s"
  "servers (spawned os n config p s) =
     (servers s)(n \<mapsto>
         \<lparr>name = n, status = ''running'', pid = Some p, port = None,
          command = full_command config, start_time = Some (now os),
          cpu_percent = 0, memory_mb = 0, last_health_check = None,
          error_count = 0, restart_count = 0\<rparr>)"
  "processes (spawned os n config p s) = (processes s)(n \<mapsto> p)"
  "state_files (spawned os n config p s) = state_files s"
  "monitoring_enabled (spawned os n config p s) = monitoring_enabled s"
  by (simp_all add: spawned_def starting_def emit_fields register_fields register_servers)

lemma starting_fields:
  "trace (starting n s) = trace s @ [Log INFO ''Starting MCP server'' n]"
  "server_configs (starting n s) = server_configs s"
  "servers (starting n s) = servers s"
  "processes (starting n s) = processes s"
  "state_files (starting n s) = state_files s"
  "monitoring_enabled (starting n s) = monitoring_enabled s"
  by (simp_all add: starting_def emit_fields)

lemmas proj_simps =
  emit_fields update_server_fields update_server_servers save_server_state_fields
  spawned_fields starting_fields

lemmas start_server_results =
  start_server_no_config start_server_already start_server_raised start_server_exited
  start_server_started


lemma start_server_trace:
  assumes "map_of (server_configs t) n = Some config" and "may_start t n force"
  shows "\<exists>evs. trace (snd (start_server os n force t))
           = trace t @ [Log INFO ''Starting MCP server'' n] @ evs"
  using assms
  by (cases rule: start_server_cases [where s = t and n = n and force = force and os = os])
     (simp_all add: start_server_results proj_simps)

lemma may_start_cong: "servers t n = servers s n \<Longrightarrow> may_start t n force = may_start s n force"
  by (simp add: may_start_def)

lemma start_server_entry:
  assumes "servers t n = servers s n" and "server_configs t = server_configs s"
  shows "servers (snd (start_server os n force t)) n = servers (snd (start_server os n force s)) n"
proof (cases rule: start_server_cases [where s = s and n = n and force = force and os = os])
  case no_config
  with assms show ?thesis by (simp add: start_server_no_config proj_simps)
next
  case (already config)
  with assms may_start_cong [OF assms(1), of force] show ?thesis
    by (simp add: start_server_already proj_simps)
next
  case (raised config)
  with assms may_start_cong [OF assms(1), of force] show ?thesis
    by (simp add: start_server_raised proj_simps)
next
  case (exited config p)
  with assms may_start_cong [OF assms(1), of force] show ?thesis
    by (simp add: start_server_exited proj_simps)
next
  case (started config p)
  with assms may_start_cong [OF assms(1), of force] show ?thesis
    by (simp add: start_server_started proj_simps)
qed

lemma untouched_trace: "untouched n s s' \<Longrightarrow> \<exists>evs. trace s' = trace s @ evs"
  by (auto simp: untouched_def)

lemma untouched_servers: "untouched n s s' \<Longrightarrow> servers s' n = servers s n"
  by (simp add: untouched_def)

lemma untouched_configs: "untouched n s s' \<Longrightarrow> server_configs s' = server_configs s"
  by (simp add: untouched_def)

lemma monitor_pass_at:
  assumes "distinct (map fst cfgs)" and "(n, config) \<in> set cfgs"
    and "\<forall>(m, c) \<in> set cfgs. 0 \<le> restart_delay c"
  shows "\<exists>s1. untouched n s s1 \<and>
              untouched n (snd (monitor_server os n config s1)) (snd (monitor_pass os cfgs s))"
  using assms
proof (induction cfgs arbitrary: s)
  case Nil
  then show ?case by simp
next
  case (Cons a cfgs)
  obtain m c where a: "a = (m, c)" by (cases a)
  from Cons.prems a have dm: "0 \<le> restart_delay c" by simp
  obtain e t where r: "monitor_server os m c s = (e, t)"
    by (cases "monitor_server os m c s")
  with monitor_server_no_error [OF dm, of os m s] have e: "e = None" by simp
  show ?case
  proof (cases "m = n")
    case True
    with Cons.prems a have "c = config" and rest: "n \<notin> fst ` set cfgs"
      by (auto simp: image_iff)
    with True a r e monitor_pass_untouched [OF rest, of t os] have
      "untouched n (snd (monitor_server os n config s)) (snd (monitor_pass os (a # cfgs) s))"
      by simp
    then show ?thesis using untouched_refl by blast
  next
    case False
    with Cons.prems a have d: "distinct (map fst cfgs)" and mem: "(n, config) \<in> set cfgs"
      and nn: "\<forall>(m, c) \<in> set cfgs. 0 \<le> restart_delay c"
      by auto
    from Cons.IH [OF d mem nn, of t] obtain s1 where
      1: "untouched n t s1" and
      2: "untouched n (snd (monitor_server os n config s1)) (snd (monitor_pass os cfgs t))"
      by blast
    from untouched_monitor_server [OF False, of s os c] r have "untouched n s t" by simp
    from this 1 have "untouched n s s1" by (rule untouched_trans)
    moreover from a r e 2 have
      "untouched n (snd (monitor_server os n config s1)) (snd (monitor_pass os (a # cfgs) s))"
      by simp
    ultimately show ?thesis by blast
  qed
qed

lemma monitor_tick_trace:
  "\<exists>evs. trace (snd (monitor_tick os interval s))
           = trace (snd (monitor_pass os (server_configs s) s)) @ evs"
  by (cases "monitor_pass os (server_configs s) s")
     (auto simp: monitor_tick_def sleep_def emit_def split: option.splits)

lemma monitor_tick_servers:
  "servers (snd (monitor_tick os interval s)) = servers (snd (monitor_pass os (server_configs s) s))"
  by (cases "monitor_pass os (server_configs s) s")
     (auto simp: monitor_tick_def sleep_def emit_def split: option.splits)


lemma monitor_server_autostart:
  assumes "auto_start config" and "auto_restart config" and "servers t n = Some server"
    and "status server \<noteq> ''running''" and "restart_count server < max_restarts config"
    and "0 \<le> restart_delay config"
  shows "snd (monitor_server os n config t)
         = snd (start_server os n False
                  (emit (Sleep (restart_delay config))
                     (emit (Log INFO ''Auto-restarting failed server'' n) t)))"
  using assms by (simp add: monitor_server_def sleep_def)



subsection \<open>The ways \<^verbatim>\<open>stop_server\<close> ends\<close>

lemma update_server_servers_eq:
  "servers t = servers s \<Longrightarrow> servers (update_server n f t) = servers (update_server n f s)"
  by (simp add: update_server_def split: option.splits)

lemma kill_process_fields:
  "servers (state_of (kill_process os n p force s)) = servers s"
  "processes (state_of (kill_process os n p force s)) = processes s"
  "state_files (state_of (kill_process os n p force s)) = state_files s"
  "server_configs (state_of (kill_process os n p force s)) = server_configs s"
  by (simp_all add: kill_process_def send_signal_def Let_def emit_fields split: sum.splits)

lemma stop_server_absent:
  "servers s n = None \<Longrightarrow>
   stop_server os n force s = (True, emit (Log WARNING ''Server not found in managed servers'' n) s)"
  by (simp add: stop_server_def)

lemma stop_server_idle:
  "servers s n = Some server \<Longrightarrow> status server \<noteq> ''running'' \<Longrightarrow>
   stop_server os n force s = (True, emit (Log INFO ''Server is not running'' n) s)"
  by (simp add: stop_server_def)

lemma stop_server_no_handle:
  "servers s n = Some server \<Longrightarrow> status server = ''running'' \<Longrightarrow> processes s n = None \<Longrightarrow>
   stop_server os n force s =
     (True, save_server_state os n
              (emit (Log INFO ''MCP server stopped successfully'' n)
                 (update_server n (\<lambda>server. server\<lparr>status := ''stopped'', pid := None\<rparr>)
                    (emit (Log INFO ''Stopping MCP server'' n) s))))"
  by (simp add: stop_server_def Let_def emit_fields)

lemma stop_server_raised:
  "servers s n = Some server \<Longrightarrow> status server = ''running'' \<Longrightarrow> processes s n = Some p \<Longrightarrow>
   kill_process os n p force (emit (Log INFO ''Stopping MCP server'' n) s) = Inl t \<Longrightarrow>
   stop_server os n force s = (False, emit (Log ERROR ''Failed to stop MCP server'' n) t)"
  by (simp add: stop_server_def Let_def emit_fields)

lemma stop_server_killed:
  "servers s n = Some server \<Longrightarrow> status server = ''running'' \<Longrightarrow> processes s n = Some p \<Longrightarrow>
   kill_process os n p force (emit (Log INFO ''Stopping MCP server'' n) s) = Inr t \<Longrightarrow>
   stop_server os n force s =
     (True, save_server_state os n
              (emit (Log INFO ''MCP server stopped successfully'' n)
                 (update_server n (\<lambda>server. server\<lparr>status := ''stopped'', pid := None\<rparr>)
                    (t\<lparr>processes := (processes t)(n := None)\<rparr>))))"
  by (simp add: stop_server_def Let_def emit_fields)

text \<open>
  \<^verbatim>\<open>stop_server\<close> leaves every entry and every handle as it was, or it marks the entry
  of its server stopped and touches no other handle; when it reports success its
  server is not running.
\<close>

lemma stop_server_result:
  "(fst (stop_server os n force s) \<longrightarrow> may_start (snd (stop_server os n force s)) n False) \<and>
   (servers (snd (stop_server os n force s)) = servers s \<and>
      processes (snd (stop_server os n force s)) = processes s
    \<or> servers (snd (stop_server os n force s))
         = servers (update_server n (\<lambda>server. server\<lparr>status := ''stopped'', pid := None\<rparr>) s) \<and>
      (\<forall>m. m \<noteq> n \<longrightarrow> processes (snd (stop_server os n force s)) m = processes s m))"
proof (cases "servers s n")
  case None
  then show ?thesis by (simp add: stop_server_absent emit_fields may_start_def)
next
  case sv: (Some server)
  show ?thesis
  proof (cases "status server = ''running''")
    case False
    with sv show ?thesis by (simp add: stop_server_idle emit_fields may_start_def)
  next
    case True
    let ?s1 = "emit (Log INFO ''Stopping MCP server'' n) s"
    show ?thesis
    proof (cases "processes s n")
      case None
      have "servers (update_server n (\<lambda>server. server\<lparr>status := ''stopped'', pid := None\<rparr>) ?s1)
              = servers (update_server n (\<lambda>server. server\<lparr>status := ''stopped'', pid := None\<rparr>) s)"
        by (rule update_server_servers_eq) (simp add: emit_fields)
      with stop_server_no_handle [OF sv True None, of os force] sv show ?thesis
        by (simp add: proj_simps may_start_def)
    next
      case (Some p)
      show ?thesis
      proof (cases "kill_process os n p force ?s1")
        case (Inl t)
        with kill_process_fields(1,2) [of os n p force ?s1]
        have "servers t = servers s" "processes t = processes s"
          by (simp_all add: emit_fields)
        with stop_server_raised [OF sv True Some Inl] show ?thesis
          by (simp add: emit_fields)
      next
        case (Inr t)
        with kill_process_fields(1,2) [of os n p force ?s1]
        have "servers t = servers s" "processes t = processes s"
          by (simp_all add: emit_fields)
        then have "servers (update_server n (\<lambda>server. server\<lparr>status := ''stopped'', pid := None\<rparr>)
                             (t\<lparr>processes := (processes t)(n := None)\<rparr>))
              = servers (update_server n (\<lambda>server. server\<lparr>status := ''stopped'', pid := None\<rparr>) s)"
          by (intro update_server_servers_eq) simp
        with stop_server_killed [OF sv True Some Inr] sv \<open>processes t = processes s\<close> show ?thesis
          by (simp add: proj_simps may_start_def)
      qed
    qed
  qed
qed

subsection \<open>A running server has a handle and no failed check on its count\<close>

lemma sound_same:
  "running_sound s \<Longrightarrow> servers t = servers s \<Longrightarrow> processes t = processes s \<Longrightarrow> running_sound t"
  by (simp add: running_sound_def)

lemma sound_emit: "running_sound s \<Longrightarrow> running_sound (emit e s)"
  by (erule sound_same) (simp_all add: emit_fields)

lemma sound_save: "running_sound s \<Longrightarrow> running_sound (save_server_state os n s)"
  by (erule sound_same) (simp_all add: save_server_state_fields)

lemma sound_update:
  assumes "running_sound s"
    and "\<And>server. servers s n = Some server \<Longrightarrow> entry_sound (processes s n) server
           \<Longrightarrow> entry_sound (processes s n) (f server)"
  shows "running_sound (update_server n f s)"
  unfolding running_sound_def
proof (intro allI impI)
  fix m new assume a: "servers (update_server n f s) m = Some new"
  show "entry_sound (processes (update_server n f s) m) new"
  proof (cases "m = n")
    case True
    with a obtain old where o: "servers s n = Some old" and n: "new = f old"
      by (auto simp: update_server_servers)
    from assms(1) o have "entry_sound (processes s n) old"
      by (simp add: running_sound_def)
    from assms(2) [OF o this] True n show ?thesis
      by (simp add: update_server_fields)
  next
    case False
    with a assms(1) show ?thesis
      by (simp add: update_server_servers update_server_fields running_sound_def)
  qed
qed

text \<open>Marking the server stopped makes up for a handle that was dropped.\<close>

lemma sound_stopped:
  assumes "running_sound s"
    and "servers t = servers (update_server n (\<lambda>server. server\<lparr>status := ''stopped'', pid := None\<rparr>) s)"
    and "\<forall>m. m \<noteq> n \<longrightarrow> processes t m = processes s m"
  shows "running_sound t"
  unfolding running_sound_def
proof (intro allI impI)
  fix m new assume a: "servers t m = Some new"
  show "entry_sound (processes t m) new"
  proof (cases "m = n")
    case True
    with a assms(2) have "status new = ''stopped''"
      by (auto simp: update_server_servers)
    then show ?thesis by (simp add: entry_sound_def)
  next
    case False
    with a assms show ?thesis
      by (simp add: update_server_servers running_sound_def)
  qed
qed

lemma sound_spawned:
  assumes "running_sound s"
  shows "running_sound (spawned os n config p s)"
  unfolding running_sound_def
proof (intro allI impI)
  fix m new assume a: "servers (spawned os n config p s) m = Some new"
  show "entry_sound (processes (spawned os n config p s) m) new"
  proof (cases "m = n")
    case True
    with a show ?thesis by (auto simp: spawned_fields entry_sound_def)
  next
    case False
    with a assms show ?thesis by (simp add: spawned_fields running_sound_def)
  qed
qed

lemma sound_start_server:
  assumes "running_sound s"
  shows "running_sound (snd (start_server os n force s))"
proof (cases rule: start_server_cases [where s = s and n = n and force = force and os = os])
  case no_config
  with assms show ?thesis by (simp add: start_server_no_config sound_emit)
next
  case (already config)
  with assms show ?thesis by (simp add: start_server_already sound_emit)
next
  case (raised config)
  have "running_sound (update_server n (\<lambda>server. server\<lparr>status := ''error''\<rparr>)
                  (emit (Log ERROR ''Failed to start MCP server'' n) (starting n s)))"
    by (rule sound_update) (simp_all add: starting_def sound_emit assms entry_sound_def)
  with raised show ?thesis by (simp add: start_server_raised)
next
  case (exited config p)
  have "running_sound (update_server n (\<lambda>server. server\<lparr>status := ''error''\<rparr>)
                  (emit (Log ERROR ''MCP server failed to start'' n) (spawned os n config p s)))"
    by (rule sound_update) (simp_all add: sound_emit sound_spawned assms entry_sound_def)
  with exited show ?thesis by (simp add: start_server_exited)
next
  case (started config p)
  have "running_sound (save_server_state os n
                 (emit (Log INFO ''MCP server started successfully'' n) (spawned os n config p s)))"
    by (intro sound_save sound_emit sound_spawned assms)
  with started show ?thesis by (simp add: start_server_started)
qed

lemma sound_stop_server:
  assumes "running_sound s"
  shows "running_sound (snd (stop_server os n force s))"
proof -
  from stop_server_result [of os n force s] have
    "servers (snd (stop_server os n force s)) = servers s \<and>
      processes (snd (stop_server os n force s)) = processes s
    \<or> servers (snd (stop_server os n force s))
         = servers (update_server n (\<lambda>server. server\<lparr>status := ''stopped'', pid := None\<rparr>) s) \<and>
      (\<forall>m. m \<noteq> n \<longrightarrow> processes (snd (stop_server os n force s)) m = processes s m)"
    by (rule conjunct2)
  then show ?thesis
  proof
    assume "servers (snd (stop_server os n force s)) = servers s \<and>
      processes (snd (stop_server os n force s)) = processes s"
    with assms show ?thesis by (simp add: sound_same)
  next
    assume "servers (snd (stop_server os n force s))
         = servers (update_server n (\<lambda>server. server\<lparr>status := ''stopped'', pid := None\<rparr>) s) \<and>
      (\<forall>m. m \<noteq> n \<longrightarrow> processes (snd (stop_server os n force s)) m = processes s m)"
    then have a: "servers (snd (stop_server os n force s))
         = servers (update_server n (\<lambda>server. server\<lparr>status := ''stopped'', pid := None\<rparr>) s)"
      and b: "\<forall>m. m \<noteq> n \<longrightarrow> processes (snd (stop_server os n force s)) m = processes s m"
      by blast+
    show ?thesis by (rule sound_stopped [OF assms a b])
  qed
qed

lemma restart_server_steps:
  "restart_server os n s =
     (if fst (stop_server os n False (incremented n s))
      then start_server os n False (emit (Sleep 2) (snd (stop_server os n False (incremented n s))))
      else (False, snd (stop_server os n False (incremented n s))))"
  by (simp add: restart_server_def incremented_def Let_def split: prod.splits)

lemma sound_incremented: "running_sound s \<Longrightarrow> running_sound (incremented n s)"
  unfolding incremented_def
  by (rule sound_update) (simp_all add: sound_emit entry_sound_def)

lemma sound_restart_server:
  assumes "running_sound s"
  shows "running_sound (snd (restart_server os n s))"
proof -
  let ?stop = "stop_server os n False (incremented n s)"
  have b: "running_sound (snd ?stop)"
    by (intro sound_stop_server sound_incremented assms)
  then have "running_sound (snd (start_server os n False (emit (Sleep 2) (snd ?stop))))"
    by (intro sound_start_server sound_emit)
  with b show ?thesis by (simp add: restart_server_steps)
qed

lemma sound_health_check:
  assumes "running_sound s"
  shows "running_sound (snd (health_check_server os n s))"
proof -
  have "running_sound (update_server n (\<lambda>server. server\<lparr>status := ''stopped'', pid := None\<rparr>) s)"
    by (rule sound_update [OF assms]) (simp add: entry_sound_def)
  with assms show ?thesis
    by (simp add: health_check_server_def split: option.splits psutil_result.splits bool.splits)
qed

text \<open>A health check that fails leaves its server not running.\<close>

lemma health_check_failed:
  "health_check_server os n s = (False, t) \<Longrightarrow> servers t n = Some server \<Longrightarrow> status server \<noteq> ''running''"
  by (auto simp: health_check_server_def update_server_servers
           split: option.splits psutil_result.splits bool.splits if_splits)

lemma sound_monitor_server:
  assumes "running_sound s"
  shows "running_sound (snd (monitor_server os n config s))"
proof (cases "servers s n")
  case None
  with assms show ?thesis by (simp add: monitor_server_def)
next
  case sv: (Some server)
  let ?s1 = "emit (Log INFO ''Auto-restarting failed server'' n) s"
  have 1: "running_sound ?s1"
    by (intro sound_emit assms)
  have start: "running_sound (snd (start_server os n False (emit (Sleep (restart_delay config)) ?s1)))"
    by (intro sound_start_server sound_emit assms)
  obtain ok t where r: "health_check_server os n s = (ok, t)"
    by (cases "health_check_server os n s")
  with sound_health_check [OF assms, of os n] have h: "running_sound t" by simp
  let ?s2 = "update_server n (\<lambda>server. server\<lparr>error_count := error_count server + 1\<rparr>) t"
  have 2: "running_sound ?s2" if "\<not> ok"
  proof (rule sound_update [OF h])
    fix server assume "servers t n = Some server"
    with r that have "status server \<noteq> ''running''"
      by (simp add: health_check_failed)
    then show "entry_sound (processes t n) (server\<lparr>error_count := error_count server + 1\<rparr>)"
      by (simp add: entry_sound_def)
  qed
  have 3: "running_sound (update_server n (\<lambda>server. server\<lparr>error_count := 0\<rparr>)
            (snd (restart_server os n (emit (Log WARNING ''Server failed health checks, restarting'' n) ?s2))))"
    if "\<not> ok"
    by (rule sound_update [OF sound_restart_server [OF sound_emit [OF 2 [OF that]]]])
       (simp add: entry_sound_def)
  have 4: "running_sound (update_server n
             (\<lambda>server. server\<lparr>error_count := 0, last_health_check := Some (now os)\<rparr>) t)"
    by (rule sound_update [OF h]) (simp add: entry_sound_def)
  show ?thesis
    using sv assms 1 start r 2 3 4
    by (cases ok) (simp_all add: monitor_server_def sleep_def Let_def)
qed

lemma sound_monitor_pass:
  "running_sound s \<Longrightarrow> running_sound (snd (monitor_pass os cfgs s))"
proof (induction cfgs arbitrary: s)
  case Nil
  then show ?case by simp
next
  case (Cons a cfgs)
  obtain m config where a: "a = (m, config)" by (cases a)
  obtain e t where r: "monitor_server os m config s = (e, t)"
    by (cases "monitor_server os m config s")
  with sound_monitor_server [OF Cons.prems, of os m config] have t: "running_sound t" by simp
  show ?case
  proof (cases e)
    case None
    with a r Cons.IH [OF t] show ?thesis by simp
  next
    case (Some err)
    with a r t show ?thesis by simp
  qed
qed

lemma monitor_tick_processes:
  "processes (snd (monitor_tick os interval s)) = processes (snd (monitor_pass os (server_configs s) s))"
  by (cases "monitor_pass os (server_configs s) s")
     (auto simp: monitor_tick_def sleep_def emit_def split: option.splits)

lemma sound_monitor_tick:
  "running_sound s \<Longrightarrow> running_sound (snd (monitor_tick os interval s))"
  by (rule sound_same [OF sound_monitor_pass [of s os "server_configs s"]])
     (simp_all add: monitor_tick_servers monitor_tick_processes)

lemma sound_load_server_state:
  assumes "running_sound s"
  shows "running_sound (load_server_state os file s)"
proof -
  obtain stem content where f: "file = (stem, content)" by (cases "file")
  have stopped: "running_sound u"
    if "servers u = (servers s)(k \<mapsto> v)" and "status v = ''stopped''" and "processes u = processes s"
    for u k v
    using assms that by (auto simp: running_sound_def entry_sound_def)
  show ?thesis
    unfolding f load_server_state_def
    by (auto simp: Let_def Popen_def assms sound_emit
             intro!: stopped
             split: option.splits psutil_result.splits bool.splits file_content.splits)
qed

lemma sound_load_server_states_fold:
  "running_sound s \<Longrightarrow> running_sound (fold (load_server_state os) files s)"
proof (induction files arbitrary: s)
  case Nil
  then show ?case by simp
next
  case (Cons a files)
  from Cons.IH [OF sound_load_server_state [OF Cons.prems, of os a]]
  show ?case by simp
qed

lemma refresh_metrics_sound:
  "entry_sound h server \<Longrightarrow> entry_sound h (refresh_metrics os server)"
  by (simp add: refresh_metrics_def entry_sound_def split: option.splits psutil_result.splits)

lemma sound_update_server_metrics:
  assumes "running_sound s"
  shows "running_sound (update_server_metrics os s)"
  unfolding running_sound_def
proof (intro allI impI)
  fix m new assume "servers (update_server_metrics os s) m = Some new"
  then obtain old where o: "servers s m = Some old" and n: "new = refresh_metrics os old"
    by (auto simp: update_server_metrics_def)
  from assms o have "entry_sound (processes s m) old"
    by (simp add: running_sound_def)
  with n show "entry_sound (processes (update_server_metrics os s) m) new"
    by (simp add: refresh_metrics_sound update_server_metrics_def)
qed

lemma get_server_status_state: "snd (get_server_status os server_name s) = update_server_metrics os s"
  by (simp add: get_server_status_def Let_def split: option.splits)

lemma reachable_running_sound: "reachable s \<Longrightarrow> running_sound s"
proof (induction rule: reachable.induct)
  case (init configs files)
  show ?case by (simp add: running_sound_def init_manager_def)
next
  case (load s os)
  from sound_load_server_states_fold [OF load.IH]
  show ?case by (simp add: load_server_states_def)
next
  case (start s os n force)
  from sound_start_server [OF start.IH] show ?case .
next
  case (stop s os n force)
  from sound_stop_server [OF stop.IH] show ?case .
next
  case (restart s os n)
  from sound_restart_server [OF restart.IH] show ?case .
next
  case (status s os server_name)
  from sound_update_server_metrics [OF status.IH]
  show ?case by (simp add: get_server_status_state)
next
  case (deploy s io_raises n config)
  show ?case
    by (rule sound_same [OF deploy.IH]) (simp_all add: deploy_server_def emit_fields)
next
  case (monitoring s)
  show ?case
    by (rule sound_same [OF monitoring.IH]) (simp_all add: start_monitoring_def)
next
  case (tick s os interval)
  from sound_monitor_tick [OF tick.IH] show ?case .
qed

subsection \<open>Starting a server\<close>

lemma save_server_state_files:
  "state_files (save_server_state os n s) =
     (case servers s n of
        None \<Rightarrow> state_files s
      | Some server \<Rightarrow>
          if open_raises os n then state_files s
          else AList.update n (if write_raises os n then Truncated else Json (saved_record server))
                 (state_files s))"
  by (simp add: save_server_state_def saved_record_def emit_def Let_def split: option.splits)

text \<open>
  C6, as stated, fails. A process that exits within the grace second leaves the entry in
  status error, but \<^verbatim>\<open>_save_server_state\<close> is not called on that path: no state file is
  written. A spawn that raises for a server that has no entry yet leaves it without an
  entry, so nothing is in status error. A start that raises for a server that has an
  entry (here at line 155, as the module is written) sets the status to error in memory
  only, and the state file keeps the record it held, which says running. And a start that
  succeeds on a full disk leaves a state file that the opening has emptied: no record is
  persisted.
\<close>

theorem start_server_outcomes_counterexample:
  "status_of (snd (start_server os_exits_early ''alpha'' False fresh)) ''alpha'' = Some ''error'' \<and>
   state_files (snd (start_server os_exits_early ''alpha'' False fresh)) = [] \<and>
   fst (start_server os_no_binary ''alpha'' False fresh) = False \<and>
   servers (snd (start_server os_no_binary ''alpha'' False fresh)) ''alpha'' = None \<and>
   state_files (snd (start_server os_no_binary ''alpha'' False fresh)) = [] \<and>
   status_of alpha_reloaded ''alpha'' = Some ''stopped'' \<and>
   fst (start_server os_name_error ''alpha'' False alpha_reloaded) = False \<and>
   status_of (snd (start_server os_name_error ''alpha'' False alpha_reloaded)) ''alpha'' = Some ''error'' \<and>
   state_files (snd (start_server os_name_error ''alpha'' False alpha_reloaded))
     = [(''alpha'', Json alpha_record)] \<and>
   sd_status alpha_record = ''running'' \<and>
   status_of (snd (start_server os_disk_full ''alpha'' False fresh)) ''alpha'' = Some ''running'' \<and>
   state_files (snd (start_server os_disk_full ''alpha'' False fresh)) = [(''alpha'', Truncated)]"
  by (simp add: observation_defs manager_defs input_defs)

text \<open>
  C6, as the code has it. For a configured server that is not already running (or with
  \<open>force\<close>): when the spawn raises, \<^verbatim>\<open>start_server\<close> fails, an existing entry gets
  status error (no entry is made when there is none) and no state file is written; when
  the process has exited after the grace second, it fails, the entry is the new record
  with status error and the pid of the exited process, and no state file is written;
  otherwise it succeeds, the entry is the new record with status running and the pid, and
  the record is written to the state file. When the state file cannot be opened it is as
  it was; when the write raises after the opening, the file is left truncated. The status
  record has no field for an error message.
\<close>

theorem start_server_outcomes:
  assumes "map_of (server_configs s) n = Some config" and "may_start s n force"
  shows "case launch os n config of
           None \<Rightarrow>
             \<not> fst (start_server os n force s) \<and>
             servers (snd (start_server os n force s)) n
               = map_option (\<lambda>server. server\<lparr>status := ''error''\<rparr>) (servers s n) \<and>
             state_files (snd (start_server os n force s)) = state_files s
         | Some p \<Rightarrow>
             if poll os p = None
             then fst (start_server os n force s) \<and>
                  servers (snd (start_server os n force s)) n = Some (new_status os n config p) \<and>
                  (if open_raises os n
                   then state_files (snd (start_server os n force s)) = state_files s
                   else map_of (state_files (snd (start_server os n force s))) n
                          = Some (if write_raises os n then Truncated
                                  else Json (saved_record (new_status os n config p))))
             else \<not> fst (start_server os n force s) \<and>
                  servers (snd (start_server os n force s)) n
                    = Some ((new_status os n config p)\<lparr>status := ''error''\<rparr>) \<and>
                  state_files (snd (start_server os n force s)) = state_files s"
proof (cases "launch os n config")
  case None
  from start_server_raised [OF assms None] None show ?thesis
    by (simp add: proj_simps)
next
  case (Some p)
  show ?thesis
  proof (cases "poll os p = None")
    case True
    from start_server_started [OF assms Some True] Some True show ?thesis
      by (simp add: proj_simps save_server_state_files new_status_def update_conv')
  next
    case False
    from start_server_exited [OF assms Some False] Some False show ?thesis
      by (simp add: proj_simps new_status_def)
  qed
qed

text \<open>The theorem at \<open>alpha\<close> in a fresh manager, on a system where everything works.\<close>

theorem start_server_outcomes_witness:
  "fst (start_server os_quiet ''alpha'' False fresh) \<and>
   servers (snd (start_server os_quiet ''alpha'' False fresh)) ''alpha''
     = Some (new_status os_quiet ''alpha'' alpha_config 4242) \<and>
   map_of (state_files (snd (start_server os_quiet ''alpha'' False fresh))) ''alpha''
     = Some (Json (saved_record (new_status os_quiet ''alpha'' alpha_config 4242)))"
  using start_server_outcomes [of fresh "''alpha''" alpha_config False os_quiet]
  by (simp add: fresh_def init_manager_def may_start_def launch_def Popen_def full_command_def
                alpha_config_def os_quiet_def)


subsection \<open>Stopping a server\<close>

lemma kill_process_ok:
  assumes "\<not> signals_raise os p force"
  shows "\<exists>t. kill_process os n p force s = Inr t \<and>
           servers t = servers s \<and> processes t = processes s \<and> state_files t = state_files s \<and>
           trace t = trace s @
             (if force then [signal_event os p SIGKILL]
              else [signal_event os p SIGTERM, Wait p 10] @
                   (if wait_times_out os p
                    then [Log WARNING ''Server did not shutdown gracefully, force killing'' n,
                          signal_event os p SIGKILL]
                    else []))"
  using assms
  by (cases force)
     (simp_all add: kill_process_def send_signal_def signal_event_def signals_raise_def Let_def
                    emit_fields)

lemma kill_process_raised:
  assumes "signals_raise os p force"
  shows "\<exists>t. kill_process os n p force s = Inl t \<and>
           servers t = servers s \<and> processes t = processes s \<and> state_files t = state_files s \<and>
           trace t = trace s @
             (if force \<or> signal_raises os p SIGTERM then []
              else [signal_event os p SIGTERM, Wait p 10,
                    Log WARNING ''Server did not shutdown gracefully, force killing'' n])"
  using assms
  by (cases force)
     (auto simp: kill_process_def send_signal_def signal_event_def signals_raise_def Let_def
                 emit_fields)

lemma alpha_running_entry_plain:
  "servers alpha_running ''alpha'' = Some (new_status os_quiet ''alpha'' alpha_config 4242)"
  by (simp add: manager_defs input_defs new_status_def full_command_def)

text \<open>The running \<open>alpha\<close> is a state of a session.\<close>

lemma reachable_alpha_running: "reachable alpha_running"
  unfolding alpha_running_def fresh_def
  by (rule reachable.start [OF reachable.init]) (simp add: pids_positive_def os_quiet_def)

text \<open>
  C7, as stated, fails. When signalling raises (the process group cannot be signalled),
  \<^verbatim>\<open>stop_server\<close> returns failure from its handler and the server is still running,
  with its pid. When the state file cannot be opened, the entry is stopped but the
  record on disk still says running; when the write raises after the opening (a full
  disk), the entry is stopped and the file has lost the record it held.
\<close>

theorem stop_server_stops_counterexample:
  "status_of alpha_running ''alpha'' = Some ''running'' \<and>
   processes alpha_running ''alpha'' = Some 4242 \<and>
   map_of (state_files alpha_running) ''alpha''
     = Some (Json (saved_record (new_status os_quiet ''alpha'' alpha_config 4242))) \<and>
   sd_status (saved_record (new_status os_quiet ''alpha'' alpha_config 4242)) = ''running'' \<and>
   fst (stop_server os_signal_denied ''alpha'' False alpha_running) = False \<and>
   status_of (snd (stop_server os_signal_denied ''alpha'' False alpha_running)) ''alpha''
     = Some ''running'' \<and>
   pid_of (snd (stop_server os_signal_denied ''alpha'' False alpha_running)) ''alpha''
     = Some (Some 4242) \<and>
   status_of (snd (stop_server os_read_only ''alpha'' False alpha_running)) ''alpha''
     = Some ''stopped'' \<and>
   map_of (state_files (snd (stop_server os_read_only ''alpha'' False alpha_running))) ''alpha''
     = Some (Json (saved_record (new_status os_quiet ''alpha'' alpha_config 4242))) \<and>
   status_of (snd (stop_server os_disk_full ''alpha'' False alpha_running)) ''alpha''
     = Some ''stopped'' \<and>
   map_of (state_files (snd (stop_server os_disk_full ''alpha'' False alpha_running))) ''alpha''
     = Some Truncated"
  by (simp add: observation_defs manager_defs input_defs saved_record_def new_status_def full_command_def)

text \<open>
  C7, as the code has it. A running server of a session has a process handle. For a
  running server with the handle of process \<open>p\<close>, when no signal call raises:
  \<^verbatim>\<open>stop_server\<close> succeeds; without \<open>force\<close> it sends SIGTERM to the process group (to
  the process alone where the platform has no \<^verbatim>\<open>killpg\<close>), waits up to 10 seconds and
  sends SIGKILL on timeout; with \<open>force\<close> it sends SIGKILL at once; in all these paths
  the entry ends with status stopped and no pid, the handle is dropped, and the record is
  written to the state file (which is as it was when it cannot be opened, and truncated
  when the write raises after the opening). When a signal call raises, \<^verbatim>\<open>stop_server\<close>
  logs the failure after the signals sent so far and returns failure; the entry, the
  handle and the state files are as they were, so the server is still running.
\<close>

theorem stop_server_stops:
  assumes "servers s n = Some server" and "status server = ''running''"
  shows "(reachable s \<longrightarrow> processes s n \<noteq> None) \<and>
         (\<forall>p. processes s n = Some p \<longrightarrow>
            (if signals_raise os p force
             then \<not> fst (stop_server os n force s) \<and>
                  servers (snd (stop_server os n force s)) n = Some server \<and>
                  processes (snd (stop_server os n force s)) n = Some p \<and>
                  state_files (snd (stop_server os n force s)) = state_files s \<and>
                  trace (snd (stop_server os n force s))
                    = trace s @ [Log INFO ''Stopping MCP server'' n]
                      @ (if force \<or> signal_raises os p SIGTERM then []
                         else [signal_event os p SIGTERM, Wait p 10,
                               Log WARNING ''Server did not shutdown gracefully, force killing'' n])
                      @ [Log ERROR ''Failed to stop MCP server'' n]
             else fst (stop_server os n force s) \<and>
                  servers (snd (stop_server os n force s)) n
                    = Some (server\<lparr>status := ''stopped'', pid := None\<rparr>) \<and>
                  processes (snd (stop_server os n force s)) n = None \<and>
                  trace (snd (stop_server os n force s))
                    = trace s @ [Log INFO ''Stopping MCP server'' n]
                      @ (if force then [signal_event os p SIGKILL]
                         else [signal_event os p SIGTERM, Wait p 10] @
                              (if wait_times_out os p
                               then [Log WARNING ''Server did not shutdown gracefully, force killing'' n,
                                     signal_event os p SIGKILL]
                               else []))
                      @ [Log INFO ''MCP server stopped successfully'' n,
                         if open_raises os n \<or> write_raises os n
                         then Log ERROR ''Failed to save server state'' n
                         else Write n (saved_record (server\<lparr>status := ''stopped'', pid := None\<rparr>))] \<and>
                  (if open_raises os n
                   then state_files (snd (stop_server os n force s)) = state_files s
                   else map_of (state_files (snd (stop_server os n force s))) n
                          = Some (if write_raises os n then Truncated
                                  else Json (saved_record (server\<lparr>status := ''stopped'', pid := None\<rparr>))))))"
proof (intro conjI impI allI)
  assume "reachable s"
  then have "running_sound s" by (rule reachable_running_sound)
  with assms show "processes s n \<noteq> None"
    by (auto simp: running_sound_def entry_sound_def)
next
  fix p assume h: "processes s n = Some p"
  let ?s1 = "emit (Log INFO ''Stopping MCP server'' n) s"
  let ?r = "stop_server os n force s"
  show "if signals_raise os p force
        then \<not> fst ?r \<and> servers (snd ?r) n = Some server \<and> processes (snd ?r) n = Some p \<and>
             state_files (snd ?r) = state_files s \<and>
             trace (snd ?r)
               = trace s @ [Log INFO ''Stopping MCP server'' n]
                 @ (if force \<or> signal_raises os p SIGTERM then []
                    else [signal_event os p SIGTERM, Wait p 10,
                          Log WARNING ''Server did not shutdown gracefully, force killing'' n])
                 @ [Log ERROR ''Failed to stop MCP server'' n]
        else fst ?r \<and>
             servers (snd ?r) n = Some (server\<lparr>status := ''stopped'', pid := None\<rparr>) \<and>
             processes (snd ?r) n = None \<and>
             trace (snd ?r)
               = trace s @ [Log INFO ''Stopping MCP server'' n]
                 @ (if force then [signal_event os p SIGKILL]
                    else [signal_event os p SIGTERM, Wait p 10] @
                         (if wait_times_out os p
                          then [Log WARNING ''Server did not shutdown gracefully, force killing'' n,
                                signal_event os p SIGKILL]
                          else []))
                 @ [Log INFO ''MCP server stopped successfully'' n,
                    if open_raises os n \<or> write_raises os n
                    then Log ERROR ''Failed to save server state'' n
                    else Write n (saved_record (server\<lparr>status := ''stopped'', pid := None\<rparr>))] \<and>
             (if open_raises os n
              then state_files (snd ?r) = state_files s
              else map_of (state_files (snd ?r)) n
                     = Some (if write_raises os n then Truncated
                             else Json (saved_record (server\<lparr>status := ''stopped'', pid := None\<rparr>))))"
  proof (cases "signals_raise os p force")
    case True
    from kill_process_raised [OF True, of n ?s1] obtain t where
      k: "kill_process os n p force ?s1 = Inl t" and
      sv: "servers t = servers s" and pr: "processes t = processes s" and
      sf: "state_files t = state_files s" and
      tr: "trace t = trace s @ [Log INFO ''Stopping MCP server'' n] @
             (if force \<or> signal_raises os p SIGTERM then []
              else [signal_event os p SIGTERM, Wait p 10,
                    Log WARNING ''Server did not shutdown gracefully, force killing'' n])"
      by (auto simp: emit_fields)
    from stop_server_raised [OF assms h k] True assms(1) h sv pr sf tr show ?thesis
      by (simp add: emit_fields)
  next
    case False
    from kill_process_ok [OF False, of n ?s1] obtain t where
      k: "kill_process os n p force ?s1 = Inr t" and
      sv: "servers t = servers s" and pr: "processes t = processes s" and
      sf: "state_files t = state_files s" and
      tr: "trace t = trace s @ [Log INFO ''Stopping MCP server'' n] @
             (if force then [signal_event os p SIGKILL]
              else [signal_event os p SIGTERM, Wait p 10] @
                   (if wait_times_out os p
                    then [Log WARNING ''Server did not shutdown gracefully, force killing'' n,
                          signal_event os p SIGKILL]
                    else []))"
      by (auto simp: emit_fields)
    let ?t' = "t\<lparr>processes := (processes t)(n := None)\<rparr>"
    have fields: "servers ?t' = servers s" "trace ?t' = trace t" "state_files ?t' = state_files s"
      "processes ?t' n = None"
      using sv sf by simp_all
    show ?thesis
      unfolding stop_server_killed [OF assms h k]
      using False assms(1) fields tr
      by (simp add: proj_simps save_server_state_files save_events_def saved_record_def update_conv')
  qed
qed

text \<open>
  The theorem at the running \<open>alpha\<close>, on a system where everything works and on one
  where every signal call raises.
\<close>

theorem stop_server_stops_witness:
  "reachable alpha_running \<and> processes alpha_running ''alpha'' = Some 4242 \<and>
   fst (stop_server os_quiet ''alpha'' False alpha_running) \<and>
   status_of (snd (stop_server os_quiet ''alpha'' False alpha_running)) ''alpha'' = Some ''stopped'' \<and>
   pid_of (snd (stop_server os_quiet ''alpha'' False alpha_running)) ''alpha'' = Some None \<and>
   trace (snd (stop_server os_quiet ''alpha'' False alpha_running))
     = trace alpha_running
       @ [Log INFO ''Stopping MCP server'' ''alpha'', Killpg 4242 SIGTERM, Wait 4242 10,
          Log INFO ''MCP server stopped successfully'' ''alpha'',
          Write ''alpha''
            (saved_record ((new_status os_quiet ''alpha'' alpha_config 4242)
                             \<lparr>status := ''stopped'', pid := None\<rparr>))] \<and>
   map_of (state_files (snd (stop_server os_quiet ''alpha'' False alpha_running))) ''alpha''
     = Some (Json (saved_record ((new_status os_quiet ''alpha'' alpha_config 4242)
                                   \<lparr>status := ''stopped'', pid := None\<rparr>))) \<and>
   \<not> fst (stop_server os_name_error ''alpha'' False alpha_running) \<and>
   status_of (snd (stop_server os_name_error ''alpha'' False alpha_running)) ''alpha'' = Some ''running''"
proof -
  have p: "processes alpha_running ''alpha'' = Some 4242"
    by (simp add: manager_defs input_defs)
  have r: "status (new_status os_quiet ''alpha'' alpha_config 4242) = ''running''"
    by (simp add: new_status_def)
  have q: "\<not> signals_raise os_quiet 4242 False" "signals_raise os_name_error 4242 False"
    by (simp_all add: os_quiet_def os_name_error_def signals_raise_def)
  have os: "has_killpg os_quiet" "\<not> wait_times_out os_quiet 4242"
    "\<not> open_raises os_quiet ''alpha''" "\<not> write_raises os_quiet ''alpha''"
    by (simp_all add: os_quiet_def)
  from stop_server_stops [OF alpha_running_entry_plain r, of os_quiet False] p q(1) os
  have a: "fst (stop_server os_quiet ''alpha'' False alpha_running) \<and>
   status_of (snd (stop_server os_quiet ''alpha'' False alpha_running)) ''alpha'' = Some ''stopped'' \<and>
   pid_of (snd (stop_server os_quiet ''alpha'' False alpha_running)) ''alpha'' = Some None \<and>
   trace (snd (stop_server os_quiet ''alpha'' False alpha_running))
     = trace alpha_running
       @ [Log INFO ''Stopping MCP server'' ''alpha'', Killpg 4242 SIGTERM, Wait 4242 10,
          Log INFO ''MCP server stopped successfully'' ''alpha'',
          Write ''alpha''
            (saved_record ((new_status os_quiet ''alpha'' alpha_config 4242)
                             \<lparr>status := ''stopped'', pid := None\<rparr>))] \<and>
   map_of (state_files (snd (stop_server os_quiet ''alpha'' False alpha_running))) ''alpha''
     = Some (Json (saved_record ((new_status os_quiet ''alpha'' alpha_config 4242)
                                   \<lparr>status := ''stopped'', pid := None\<rparr>)))"
    by (simp add: status_of_def pid_of_def signal_event_def)
  from stop_server_stops [OF alpha_running_entry_plain r, of os_name_error False] p q(2) r
  have b: "\<not> fst (stop_server os_name_error ''alpha'' False alpha_running) \<and>
   status_of (snd (stop_server os_name_error ''alpha'' False alpha_running)) ''alpha'' = Some ''running''"
    by (simp add: status_of_def)
  from a b p reachable_alpha_running show ?thesis by simp
qed

subsection \<open>Restarting a server\<close>

lemma stop_server_trace_grows: "\<exists>evs. trace (snd (stop_server os n force s)) = trace s @ evs"
proof -
  have "n \<noteq> CHR ''x'' # n" by simp
  from untouched_trace [OF untouched_stop_server [OF this]] show ?thesis .
qed

lemma start_server_trace_grows: "\<exists>evs. trace (snd (start_server os n force s)) = trace s @ evs"
proof -
  have "n \<noteq> CHR ''x'' # n" by simp
  from untouched_trace [OF untouched_start_server [OF this]] show ?thesis .
qed

text \<open>
  C4, as stated, fails. \<open>beta\<close> has a \<open>restart_delay\<close> of 5 seconds; its restart
  sleeps 2 seconds between the stop and the start (line 269), and nowhere 5. And when
  the stop fails (the signal cannot be sent), the restart returns failure and never
  starts: the server is still running.
\<close>

theorem restart_server_order_counterexample:
  "restart_delay beta_config = 5 \<and>
   trace (snd (restart_server os_quiet ''beta'' beta_running))
     = trace beta_running
       @ [Log INFO ''Restarting MCP server'' ''beta'', Log INFO ''Stopping MCP server'' ''beta'',
          Killpg 4242 SIGTERM, Wait 4242 10,
          Log INFO ''MCP server stopped successfully'' ''beta'',
          Write ''beta''
            \<lparr>sd_name = ''beta'', sd_status = ''stopped'', sd_pid = None, sd_start_time = Some 100,
             sd_restart_count = Some 1, sd_error_count = Some 0\<rparr>,
          Sleep 2,
          Log INFO ''Starting MCP server'' ''beta'', Spawn [''sleep'', ''9999''] 4242, Sleep 1,
          Log INFO ''MCP server started successfully'' ''beta'',
          Write ''beta''
            \<lparr>sd_name = ''beta'', sd_status = ''running'', sd_pid = Some 4242,
             sd_start_time = Some 100, sd_restart_count = Some 0, sd_error_count = Some 0\<rparr>] \<and>
   fst (restart_server os_signal_denied ''beta'' beta_running) = False \<and>
   trace (snd (restart_server os_signal_denied ''beta'' beta_running))
     = trace beta_running
       @ [Log INFO ''Restarting MCP server'' ''beta'', Log INFO ''Stopping MCP server'' ''beta'',
          Log ERROR ''Failed to stop MCP server'' ''beta''] \<and>
   status_of (snd (restart_server os_signal_denied ''beta'' beta_running)) ''beta''
     = Some ''running''"
  by (simp add: observation_defs manager_defs input_defs)

text \<open>
  C4, as the code has it. \<^verbatim>\<open>restart_server\<close> first logs and increments the restart count
  (when the server has an entry), then performs \<^verbatim>\<open>stop_server\<close> on the state with the
  incremented count; when the stop reports success it sleeps a fixed 2 seconds and
  then performs \<^verbatim>\<open>start_server\<close>, whose result is the result of the restart, so the
  events of the stop, the sleep and the events of the start follow each other in the
  trace; when the stop reports failure, the restart fails and nothing is started.
\<close>

theorem restart_server_order:
  "\<exists>stop_events start_events.
     restart_count_of (incremented n s) n = map_option (\<lambda>c. c + 1) (restart_count_of s n) \<and>
     trace (snd (stop_server os n False (incremented n s)))
       = trace s @ [Log INFO ''Restarting MCP server'' n] @ stop_events \<and>
     (if fst (stop_server os n False (incremented n s))
      then restart_server os n s
             = start_server os n False (emit (Sleep 2) (snd (stop_server os n False (incremented n s)))) \<and>
           trace (snd (restart_server os n s))
             = trace s @ [Log INFO ''Restarting MCP server'' n] @ stop_events @ [Sleep 2]
               @ start_events
      else restart_server os n s = (False, snd (stop_server os n False (incremented n s))))"
proof -
  let ?stop = "stop_server os n False (incremented n s)"
  from stop_server_trace_grows [of os n False "incremented n s"] obtain e1 where
    e1: "trace (snd ?stop) = trace s @ [Log INFO ''Restarting MCP server'' n] @ e1"
    by (auto simp: incremented_def proj_simps)
  from start_server_trace_grows [of os n False "emit (Sleep 2) (snd ?stop)"] obtain e2 where
    e2: "trace (snd (start_server os n False (emit (Sleep 2) (snd ?stop))))
           = trace s @ [Log INFO ''Restarting MCP server'' n] @ e1 @ [Sleep 2] @ e2"
    using e1 by (auto simp: proj_simps)
  have rc: "restart_count_of (incremented n s) n = map_option (\<lambda>c. c + 1) (restart_count_of s n)"
    by (simp add: incremented_def restart_count_of_def proj_simps option.map_comp comp_def)
  have eq: "restart_server os n s =
      (if fst ?stop then start_server os n False (emit (Sleep 2) (snd ?stop)) else (False, snd ?stop))"
    by (simp add: restart_server_def incremented_def Let_def split: prod.splits)
  show ?thesis
  proof (cases "fst ?stop")
    case True
    with eq e1 e2 rc show ?thesis by auto
  next
    case False
    with eq e1 rc show ?thesis by auto
  qed
qed

text \<open>The theorem at the running \<open>alpha\<close>, on a system where everything works.\<close>

theorem restart_server_order_witness:
  "fst (stop_server os_quiet ''alpha'' False (incremented ''alpha'' alpha_running)) \<and>
   restart_count_of (incremented ''alpha'' alpha_running) ''alpha'' = Some 1 \<and>
   restart_server os_quiet ''alpha'' alpha_running
     = start_server os_quiet ''alpha'' False
         (emit (Sleep 2) (snd (stop_server os_quiet ''alpha'' False (incremented ''alpha'' alpha_running))))"
proof -
  have a: "fst (stop_server os_quiet ''alpha'' False (incremented ''alpha'' alpha_running))"
    by (simp add: incremented_def manager_defs input_defs)
  have b: "restart_count_of alpha_running ''alpha'' = Some 0"
    by (simp add: observation_defs manager_defs input_defs)
  from restart_server_order [of "''alpha''" alpha_running os_quiet] a b show ?thesis
    by auto
qed

subsection \<open>A turn of the monitor\<close>

lemma alpha_vanished_configs: "server_configs alpha_vanished = [(''alpha'', alpha_config)]"
  by (simp add: manager_defs input_defs)

lemma alpha_vanished_entry:
  "servers alpha_vanished ''alpha'' =
     Some \<lparr>name = ''alpha'', status = ''stopped'', pid = None, port = None,
           command = [''sleep'', ''9999''], start_time = Some 100,
           cpu_percent = 0, memory_mb = 0, last_health_check = None,
           error_count = 1, restart_count = 0\<rparr>"
  by (simp add: manager_defs input_defs)

text \<open>
  C2, as stated, fails: a turn of the monitor skips a server whose \<open>auto_restart\<close> is
  off (line 388) and a server that has no runtime entry (line 392). \<open>beta\<close> has
  \<open>auto_start\<close>, is stopped and has restarts left, and the turn only sleeps; \<open>alpha\<close>
  in a fresh manager has no entry, and the turn only sleeps.
\<close>

theorem autostart_skips_counterexample:
  "auto_start beta_config \<and> \<not> auto_restart beta_config \<and>
   status_of beta_stopped ''beta'' = Some ''stopped'' \<and>
   restart_count_of beta_stopped ''beta'' = Some 0 \<and> max_restarts beta_config = 2 \<and>
   trace (snd (monitor_tick os_quiet 30 beta_stopped)) = trace beta_stopped @ [Sleep 30] \<and>
   status_of (snd (monitor_tick os_quiet 30 beta_stopped)) ''beta'' = Some ''stopped'' \<and>
   auto_start alpha_config \<and> auto_restart alpha_config \<and> servers fresh ''alpha'' = None \<and>
   trace (snd (monitor_tick os_quiet 30 fresh)) = [Sleep 30] \<and>
   servers (snd (monitor_tick os_quiet 30 fresh)) ''alpha'' = None"
  by (simp add: observation_defs manager_defs input_defs)

text \<open>
  C2, as the code has it. In a turn of the monitor over configurations with distinct names
  and no negative \<open>restart_delay\<close> (a negative one makes \<^verbatim>\<open>time.sleep\<close> raise and
  ends the pass), every configured server with \<open>auto_start\<close> and \<open>auto_restart\<close> that
  has a runtime entry whose status is not running and whose restart count is below
  \<open>max_restarts\<close> is started after a wait of \<open>restart_delay\<close>: the turn announces the
  restart, sleeps \<open>restart_delay\<close> and enters \<^verbatim>\<open>start_server\<close>, in this order, and at
  the end of the turn the entry of the server is the one \<^verbatim>\<open>start_server\<close> makes of it.
\<close>

theorem monitor_tick_autostart:
  assumes "distinct (map fst (server_configs s))"
    and "\<forall>(m, c) \<in> set (server_configs s). 0 \<le> restart_delay c"
    and "(n, config) \<in> set (server_configs s)"
    and "auto_start config" and "auto_restart config"
    and "servers s n = Some server" and "status server \<noteq> ''running''"
    and "restart_count server < max_restarts config"
  shows "(\<exists>before after.
            trace (snd (monitor_tick os interval s))
              = trace s @ before
                @ [Log INFO ''Auto-restarting failed server'' n, Sleep (restart_delay config),
                   Log INFO ''Starting MCP server'' n]
                @ after)
         \<and> servers (snd (monitor_tick os interval s)) n
             = servers (snd (start_server os n False s)) n"
proof -
  let ?pass = "snd (monitor_pass os (server_configs s) s)"
  from monitor_pass_at [OF assms(1,3,2), of s os] obtain s1 where
    pre: "untouched n s s1" and post: "untouched n (snd (monitor_server os n config s1)) ?pass"
    by blast
  from pre assms(6) have sv1: "servers s1 n = Some server"
    by (simp add: untouched_servers)
  from pre have cf1: "server_configs s1 = server_configs s"
    by (rule untouched_configs)
  from assms(2,3) have d: "0 \<le> restart_delay config" by auto
  let ?t = "emit (Sleep (restart_delay config)) (emit (Log INFO ''Auto-restarting failed server'' n) s1)"
  let ?st = "snd (start_server os n False ?t)"
  have it: "snd (monitor_server os n config s1) = ?st"
    by (rule monitor_server_autostart [OF assms(4,5) sv1 assms(7,8) d])
  have cfg: "map_of (server_configs ?t) n = Some config"
    using map_of_is_SomeI [OF assms(1,3)] cf1 by (simp add: emit_fields)
  have ms: "may_start ?t n False"
    using sv1 assms(7) by (simp add: may_start_def emit_fields)
  from start_server_trace [OF cfg ms, of os] obtain evs where
    tr: "trace ?st = trace ?t @ [Log INFO ''Starting MCP server'' n] @ evs"
    by blast
  from untouched_trace [OF pre] obtain e1 where e1: "trace s1 = trace s @ e1" by blast
  from untouched_trace [OF post] it obtain e3 where e3: "trace ?pass = trace ?st @ e3" by auto
  from monitor_tick_trace [of os interval s] obtain e4 where
    e4: "trace (snd (monitor_tick os interval s)) = trace ?pass @ e4"
    by blast
  have "trace (snd (monitor_tick os interval s))
          = trace s @ e1
            @ [Log INFO ''Auto-restarting failed server'' n, Sleep (restart_delay config),
               Log INFO ''Starting MCP server'' n]
            @ (evs @ e3 @ e4)"
    using e1 e3 e4 tr by (simp add: emit_fields)
  then have first: "\<exists>before after.
            trace (snd (monitor_tick os interval s))
              = trace s @ before
                @ [Log INFO ''Auto-restarting failed server'' n, Sleep (restart_delay config),
                   Log INFO ''Starting MCP server'' n]
                @ after"
    by blast
  have "servers ?st n = servers (snd (start_server os n False s)) n"
    by (rule start_server_entry) (simp_all add: emit_fields sv1 assms(6) cf1)
  moreover have "servers ?pass n = servers ?st n"
    using untouched_servers [OF post] it by simp
  ultimately have "servers (snd (monitor_tick os interval s)) n
             = servers (snd (start_server os n False s)) n"
    by (simp add: monitor_tick_servers)
  with first show ?thesis by blast
qed

text \<open>The theorem at \<open>alpha\<close>, stopped by the monitor, on a system where the start succeeds.\<close>

theorem monitor_tick_autostart_witness:
  "(\<exists>before after.
      trace (snd (monitor_tick os_quiet 30 alpha_vanished))
        = trace alpha_vanished @ before
          @ [Log INFO ''Auto-restarting failed server'' ''alpha'', Sleep 1,
             Log INFO ''Starting MCP server'' ''alpha'']
          @ after)
   \<and> status_of (snd (monitor_tick os_quiet 30 alpha_vanished)) ''alpha'' = Some ''running''"
proof -
  have "servers (snd (start_server os_quiet ''alpha'' False alpha_vanished)) ''alpha''
          = Some \<lparr>name = ''alpha'', status = ''running'', pid = Some 4242, port = None,
           command = [''sleep'', ''9999''], start_time = Some 100,
           cpu_percent = 0, memory_mb = 0, last_health_check = None,
           error_count = 0, restart_count = 0\<rparr>"
    by (simp add: manager_defs input_defs)
  with monitor_tick_autostart [of alpha_vanished "''alpha''" alpha_config _ os_quiet 30,
         OF _ _ _ _ _ alpha_vanished_entry]
  show ?thesis
    by (simp add: alpha_vanished_configs alpha_config_def status_of_def)
qed

subsection \<open>Failed health checks\<close>








subsection \<open>A running server has a pid, checked by every probe\<close>

lemma entry_ok_cong: "status new = status old \<Longrightarrow> pid new = pid old \<Longrightarrow> entry_ok old \<Longrightarrow> entry_ok new"
  by (simp add: entry_ok_def)

lemma running_has_pid_step:
  assumes "running_has_pid s" and "safe_step s s'"
  shows "running_has_pid s'"
  unfolding running_has_pid_def
proof (intro allI impI)
  fix n new assume "servers s' n = Some new"
  with assms(2) have "entry_ok new \<or> (\<exists>old. servers s n = Some old \<and> status new = status old \<and> pid new = pid old)"
    by (simp add: safe_step_def)
  then show "entry_ok new"
  proof
    assume "entry_ok new" then show ?thesis .
  next
    assume "\<exists>old. servers s n = Some old \<and> status new = status old \<and> pid new = pid old"
    then obtain old where o: "servers s n = Some old" "status new = status old" "pid new = pid old"
      by blast
    from assms(1) o(1) have "entry_ok old" by (simp add: running_has_pid_def)
    with o show ?thesis by (simp add: entry_ok_cong)
  qed
qed

lemma safe_same: "servers s' = servers s \<Longrightarrow> safe_step s s'"
  by (simp add: safe_step_def)

lemma safe_refl: "safe_step s s"
  by (simp add: safe_step_def)

lemma safe_trans:
  assumes "safe_step s t" and "safe_step t u"
  shows "safe_step s u"
  unfolding safe_step_def
proof (intro allI impI)
  fix m new assume "servers u m = Some new"
  with assms(2) have "entry_ok new \<or> (\<exists>mid. servers t m = Some mid \<and> status new = status mid \<and> pid new = pid mid)"
    by (simp add: safe_step_def)
  then show "entry_ok new \<or> (\<exists>old. servers s m = Some old \<and> status new = status old \<and> pid new = pid old)"
  proof
    assume "entry_ok new" then show ?thesis by simp
  next
    assume "\<exists>mid. servers t m = Some mid \<and> status new = status mid \<and> pid new = pid mid"
    then obtain mid where o: "servers t m = Some mid" "status new = status mid" "pid new = pid mid"
      by blast
    with assms(1) have "entry_ok mid \<or> (\<exists>old. servers s m = Some old \<and> status mid = status old \<and> pid mid = pid old)"
      by (simp add: safe_step_def)
    then show ?thesis
    proof
      assume "entry_ok mid"
      with o have "entry_ok new" by (simp add: entry_ok_cong)
      then show ?thesis by simp
    next
      assume "\<exists>old. servers s m = Some old \<and> status mid = status old \<and> pid mid = pid old"
      with o show ?thesis by auto
    qed
  qed
qed

lemma safe_emit: "safe_step s t \<Longrightarrow> safe_step s (emit e t)"
  by (erule safe_trans) (simp add: safe_same emit_fields)

lemma safe_save: "safe_step s t \<Longrightarrow> safe_step s (save_server_state os n t)"
  by (erule safe_trans) (simp add: safe_same save_server_state_fields)

lemma safe_update:
  assumes "safe_step s t"
    and "\<And>server. entry_ok (f server) \<or> (status (f server) = status server \<and> pid (f server) = pid server)"
  shows "safe_step s (update_server n f t)"
proof (rule safe_trans [OF assms(1)])
  show "safe_step t (update_server n f t)"
    unfolding safe_step_def
  proof (intro allI impI)
    fix m new assume a: "servers (update_server n f t) m = Some new"
    show "entry_ok new \<or> (\<exists>old. servers t m = Some old \<and> status new = status old \<and> pid new = pid old)"
    proof (cases "m = n")
      case True
      with a obtain old where "servers t n = Some old" and "new = f old"
        by (auto simp: update_server_servers)
      with True assms(2) [of old] show ?thesis by auto
    next
      case False
      with a show ?thesis by (simp add: update_server_servers)
    qed
  qed
qed

lemma safe_insert:
  assumes "safe_step s t" and "entry_ok v" and "servers u = (servers t)(n \<mapsto> v)"
  shows "safe_step s u"
proof (rule safe_trans [OF assms(1)])
  show "safe_step t u"
    using assms(2,3) by (simp add: safe_step_def)
qed

lemma launch_positive:
  assumes "pids_positive os" and "launch os n config = Some p"
  shows "p \<noteq> 0"
proof -
  from assms(2) have "Popen os (full_command config) = Inr p"
    by (simp add: launch_Some)
  then have "spawn os (full_command config) = Inr p"
    by (simp add: Popen_def split: if_splits)
  with assms(1) show ?thesis by (auto simp: pids_positive_def)
qed

lemma safe_start_server:
  assumes "pids_positive os"
  shows "safe_step s (snd (start_server os n force s))"
proof (cases rule: start_server_cases [where s = s and n = n and force = force and os = os])
  case no_config
  then show ?thesis by (simp add: start_server_no_config safe_emit safe_refl)
next
  case (already config)
  then show ?thesis by (simp add: start_server_already safe_emit safe_refl)
next
  case (raised config)
  have "safe_step s (update_server n (\<lambda>server. server\<lparr>status := ''error''\<rparr>)
                  (emit (Log ERROR ''Failed to start MCP server'' n) (starting n s)))"
    by (rule safe_update) (simp_all add: starting_def safe_emit safe_refl entry_ok_def)
  with raised show ?thesis by (simp add: start_server_raised)
next
  case (exited config p)
  have "safe_step s (spawned os n config p s)"
    by (rule safe_insert [OF safe_refl, where v = "new_status os n config p" and n = n])
       (simp_all add: entry_ok_def new_status_def truthy_def launch_positive [OF assms exited(3)]
                      spawned_fields)
  then have "safe_step s (update_server n (\<lambda>server. server\<lparr>status := ''error''\<rparr>)
                  (emit (Log ERROR ''MCP server failed to start'' n) (spawned os n config p s)))"
    by (intro safe_update safe_emit) (simp_all add: entry_ok_def)
  with exited show ?thesis by (simp add: start_server_exited)
next
  case (started config p)
  have "safe_step s (spawned os n config p s)"
    by (rule safe_insert [OF safe_refl, where v = "new_status os n config p" and n = n])
       (simp_all add: entry_ok_def new_status_def truthy_def launch_positive [OF assms started(3)]
                      spawned_fields)
  then have "safe_step s (save_server_state os n
                 (emit (Log INFO ''MCP server started successfully'' n) (spawned os n config p s)))"
    by (intro safe_save safe_emit)
  with started show ?thesis by (simp add: start_server_started)
qed

lemma kill_process_servers: "servers (state_of (kill_process os n p force s)) = servers s"
  by (simp add: kill_process_def send_signal_def Let_def emit_fields split: sum.splits)

lemma safe_stop_server: "safe_step s (snd (stop_server os n force s))"
proof (cases "servers s n")
  case None
  then show ?thesis by (simp add: stop_server_def safe_emit safe_refl)
next
  case sv: (Some server)
  show ?thesis
  proof (cases "status server = ''running''")
    case False
    with sv show ?thesis by (simp add: stop_server_def safe_emit safe_refl)
  next
    case True
    let ?s1 = "emit (Log INFO ''Stopping MCP server'' n) s"
    have fin: "safe_step s
        (save_server_state os n (emit (Log INFO ''MCP server stopped successfully'' n)
           (update_server n (\<lambda>server. server\<lparr>status := ''stopped'', pid := None\<rparr>) t)))"
      if "servers t = servers s" for t
      by (intro safe_save safe_emit safe_update safe_same) (simp_all add: that entry_ok_def)
    show ?thesis
    proof (cases "processes s n")
      case None
      with sv True fin [of ?s1] show ?thesis
        by (simp add: stop_server_def Let_def emit_fields)
    next
      case (Some p)
      have k: "servers (state_of (kill_process os n p force ?s1)) = servers s"
        by (simp add: kill_process_servers emit_fields)
      show ?thesis
      proof (cases "kill_process os n p force ?s1")
        case (Inl t)
        with k have "servers t = servers s" by simp
        then have "safe_step s (emit (Log ERROR ''Failed to stop MCP server'' n) t)"
          by (intro safe_emit safe_same)
        with Inl Some sv True show ?thesis
          by (simp add: stop_server_def Let_def emit_fields)
      next
        case (Inr t)
        with k have "servers (t\<lparr>processes := (processes t)(n := None)\<rparr>) = servers s" by simp
        from fin [OF this] Inr Some sv True show ?thesis
          by (simp add: stop_server_def Let_def emit_fields)
      qed
    qed
  qed
qed

lemma safe_restart_server:
  assumes "pids_positive os"
  shows "safe_step s (snd (restart_server os n s))"
proof -
  let ?s2 = "incremented n s"
  have a: "safe_step s ?s2"
    unfolding incremented_def by (intro safe_update safe_emit safe_refl) simp
  have b: "safe_step s (snd (stop_server os n False ?s2))"
    by (rule safe_trans [OF a safe_stop_server])
  have c: "safe_step s (snd (start_server os n False (emit (Sleep 2) (snd (stop_server os n False ?s2)))))"
    by (rule safe_trans [OF safe_emit [OF b] safe_start_server [OF assms]])
  show ?thesis
    using b c by (auto simp: restart_server_def incremented_def Let_def split: prod.splits)
qed

lemma safe_health_check: "safe_step s (snd (health_check_server os n s))"
proof -
  have "safe_step s (update_server n (\<lambda>server. server\<lparr>status := ''stopped'', pid := None\<rparr>) s)"
    by (intro safe_update safe_refl) (simp add: entry_ok_def)
  then show ?thesis
    by (simp add: health_check_server_def safe_refl
             split: option.splits psutil_result.splits bool.splits)
qed

lemma safe_monitor_server:
  assumes "pids_positive os"
  shows "safe_step s (snd (monitor_server os n config s))"
proof (cases "servers s n")
  case None
  then show ?thesis by (simp add: monitor_server_def safe_refl)
next
  case sv: (Some server)
  let ?s1 = "emit (Log INFO ''Auto-restarting failed server'' n) s"
  have 1: "safe_step s ?s1"
    by (intro safe_emit safe_refl)
  have start: "safe_step s (snd (start_server os n False (emit (Sleep (restart_delay config)) ?s1)))"
    by (rule safe_trans [OF safe_emit [OF 1] safe_start_server [OF assms]])
  obtain ok t where r: "health_check_server os n s = (ok, t)"
    by (cases "health_check_server os n s")
  with safe_health_check [of s os n] have h: "safe_step s t" by simp
  let ?s2 = "update_server n (\<lambda>server. server\<lparr>error_count := error_count server + 1\<rparr>) t"
  have 2: "safe_step s ?s2"
    by (rule safe_update [OF h]) simp
  have 3: "safe_step s (update_server n (\<lambda>server. server\<lparr>error_count := 0\<rparr>)
            (snd (restart_server os n (emit (Log WARNING ''Server failed health checks, restarting'' n) ?s2))))"
    by (rule safe_update [OF safe_trans [OF safe_emit [OF 2] safe_restart_server [OF assms]]]) simp
  have 4: "safe_step s (update_server n
             (\<lambda>server. server\<lparr>error_count := 0, last_health_check := Some (now os)\<rparr>) t)"
    by (rule safe_update [OF h]) simp
  show ?thesis
    using sv 1 start r 2 3 4
    by (cases ok) (simp_all add: monitor_server_def sleep_def Let_def safe_refl)
qed

lemma safe_monitor_pass:
  assumes "pids_positive os"
  shows "safe_step s (snd (monitor_pass os cfgs s))"
proof (induction cfgs arbitrary: s)
  case Nil
  show ?case by (simp add: safe_refl)
next
  case (Cons a cfgs)
  obtain m config where a: "a = (m, config)" by (cases a)
  obtain e t where r: "monitor_server os m config s = (e, t)"
    by (cases "monitor_server os m config s")
  with safe_monitor_server [OF assms, of s m config] have t: "safe_step s t" by simp
  show ?case
  proof (cases e)
    case None
    with a r safe_trans [OF t Cons.IH [of t]] show ?thesis by simp
  next
    case (Some err)
    with a r t show ?thesis by simp
  qed
qed

lemma safe_monitor_tick:
  assumes "pids_positive os"
  shows "safe_step s (snd (monitor_tick os interval s))"
  by (rule safe_trans [OF safe_monitor_pass [OF assms, of s "server_configs s"]])
     (simp add: safe_same monitor_tick_servers)

lemma safe_load_server_state: "safe_step s (load_server_state os file s)"
proof -
  obtain stem content where f: "file = (stem, content)" by (cases "file")
  have stopped: "safe_step s u"
    if "servers u = (servers s)(k \<mapsto> v)" and "status v = ''stopped''" for u k v
    by (rule safe_insert [OF safe_refl _ that(1)]) (simp add: entry_ok_def that(2))
  show ?thesis
    unfolding f load_server_state_def
    by (auto simp: Let_def Popen_def safe_refl safe_emit
             intro!: stopped
             split: option.splits psutil_result.splits bool.splits file_content.splits)
qed

lemma safe_load_server_states_fold:
  "safe_step s (fold (load_server_state os) files s)"
proof (induction files arbitrary: s)
  case Nil
  show ?case by (simp add: safe_refl)
next
  case (Cons a files)
  from safe_trans [OF safe_load_server_state [of s os a] Cons.IH [of "load_server_state os a s"]]
  show ?case by simp
qed

lemma refresh_metrics_safe:
  "entry_ok (refresh_metrics os server)
   \<or> (status (refresh_metrics os server) = status server \<and> pid (refresh_metrics os server) = pid server)"
  by (simp add: refresh_metrics_def entry_ok_def
           split: option.splits psutil_result.splits)

lemma safe_update_server_metrics: "safe_step s (update_server_metrics os s)"
  unfolding safe_step_def
proof (intro allI impI)
  fix m new assume "servers (update_server_metrics os s) m = Some new"
  then obtain old where "servers s m = Some old" and "new = refresh_metrics os old"
    by (auto simp: update_server_metrics_def)
  with refresh_metrics_safe [of os old]
  show "entry_ok new \<or> (\<exists>old. servers s m = Some old \<and> status new = status old \<and> pid new = pid old)"
    by auto
qed

lemma reachable_running_has_pid: "reachable s \<Longrightarrow> running_has_pid s"
proof (induction rule: reachable.induct)
  case (init configs files)
  show ?case by (simp add: running_has_pid_def init_manager_def)
next
  case (load s os)
  from running_has_pid_step [OF load.IH safe_load_server_states_fold]
  show ?case by (simp add: load_server_states_def)
next
  case (start s os n force)
  from running_has_pid_step [OF start.IH safe_start_server [OF start.hyps(2)]] show ?case .
next
  case (stop s os n force)
  from running_has_pid_step [OF stop.IH safe_stop_server] show ?case .
next
  case (restart s os n)
  from running_has_pid_step [OF restart.IH safe_restart_server [OF restart.hyps(2)]] show ?case .
next
  case (status s os server_name)
  from running_has_pid_step [OF status.IH safe_update_server_metrics]
  show ?case by (simp add: get_server_status_state)
next
  case (deploy s io_raises n config)
  show ?case
    by (rule running_has_pid_step [OF deploy.IH safe_same])
       (simp add: deploy_server_def emit_fields)
next
  case (monitoring s)
  show ?case
    by (rule running_has_pid_step [OF monitoring.IH safe_same]) (simp add: start_monitoring_def)
next
  case (tick s os interval)
  from running_has_pid_step [OF tick.IH safe_monitor_tick [OF tick.hyps(2)]] show ?case .
qed

text \<open>
  C9. In every state of a session, a server whose status is running has a pid that is
  not null (and not 0). A status refresh (\<^verbatim>\<open>get_server_status\<close>) leaves it running,
  with that pid, exactly when the process table answers for the pid; a health check of
  the monitor (\<^verbatim>\<open>_health_check_server\<close>) passes and leaves the state as it is
  exactly when the process is running. When either check does not find the process, the
  server is stopped and its pid is cleared.
\<close>

theorem running_pid_verified:
  assumes "reachable s" and "servers s n = Some server" and "status server = ''running''"
  shows "\<exists>p. pid server = Some p \<and> p \<noteq> 0 \<and>
           (if metrics_readable (psutil_Process os p)
            then status_of (snd (get_server_status os server_name s)) n = Some ''running'' \<and>
                 pid_of (snd (get_server_status os server_name s)) n = Some (Some p)
            else status_of (snd (get_server_status os server_name s)) n = Some ''stopped'' \<and>
                 pid_of (snd (get_server_status os server_name s)) n = Some None) \<and>
           (if is_running (psutil_Process os p)
            then health_check_server os n s = (True, s)
            else \<not> fst (health_check_server os n s) \<and>
                 status_of (snd (health_check_server os n s)) n = Some ''stopped'' \<and>
                 pid_of (snd (health_check_server os n s)) n = Some None)"
proof -
  from reachable_running_has_pid [OF assms(1)] assms(2,3) have "truthy (pid server)"
    by (auto simp: running_has_pid_def entry_ok_def)
  then obtain p where p: "pid server = Some p" "p \<noteq> 0"
    by (auto simp: truthy_def split: option.splits)
  have m: "if metrics_readable (psutil_Process os p)
            then status_of (update_server_metrics os s) n = Some ''running'' \<and>
                 pid_of (update_server_metrics os s) n = Some (Some p)
            else status_of (update_server_metrics os s) n = Some ''stopped'' \<and>
                 pid_of (update_server_metrics os s) n = Some None"
    using assms(2,3) p
    by (simp add: update_server_metrics_def refresh_metrics_def metrics_readable_def truthy_def
                  status_of_def pid_of_def
             split: psutil_result.splits option.splits)
  have h: "if is_running (psutil_Process os p)
            then health_check_server os n s = (True, s)
            else \<not> fst (health_check_server os n s) \<and>
                 status_of (snd (health_check_server os n s)) n = Some ''stopped'' \<and>
                 pid_of (snd (health_check_server os n s)) n = Some None"
    using assms(2,3) p
    by (simp add: health_check_server_def is_running_def truthy_def status_of_def pid_of_def
                  update_server_servers
             split: psutil_result.splits bool.splits)
  from p m h show ?thesis
    by (simp add: get_server_status_state)
qed

text \<open>The theorem at the running \<open>alpha\<close>, whose process has left the process table.\<close>

theorem running_pid_verified_witness:
  "reachable alpha_running \<and> status_of alpha_running ''alpha'' = Some ''running'' \<and>
   pid_of alpha_running ''alpha'' = Some (Some 4242) \<and>
   status_of (snd (get_server_status os_process_gone None alpha_running)) ''alpha'' = Some ''stopped'' \<and>
   pid_of (snd (get_server_status os_process_gone None alpha_running)) ''alpha'' = Some None \<and>
   \<not> fst (health_check_server os_process_gone ''alpha'' alpha_running) \<and>
   status_of (snd (health_check_server os_process_gone ''alpha'' alpha_running)) ''alpha''
     = Some ''stopped'' \<and>
   pid_of (snd (health_check_server os_process_gone ''alpha'' alpha_running)) ''alpha'' = Some None"
proof -
  have st: "status (new_status os_quiet ''alpha'' alpha_config 4242) = ''running''"
    by (simp add: new_status_def)
  have pd: "pid (new_status os_quiet ''alpha'' alpha_config 4242) = Some 4242"
    by (simp add: new_status_def)
  from running_pid_verified [OF reachable_alpha_running alpha_running_entry_plain st,
         of os_process_gone None]
  show ?thesis
    using reachable_alpha_running alpha_running_entry_plain st pd
    by (auto simp: metrics_readable_def is_running_def os_process_gone_def os_quiet_def
                   status_of_def pid_of_def)
qed

subsection \<open>The restart budget\<close>

lemma parked_alpha_vanished: "parked_alpha 0 alpha_vanished"
  by (simp add: parked_alpha_def manager_defs input_defs)

lemma auto_restarts_vanished: "auto_restarts alpha_vanished ''alpha'' = 0"
  by (simp add: observation_defs manager_defs input_defs)

lemma parked_alpha_reloaded: "parked_alpha 1 alpha_reloaded"
  by (simp add: parked_alpha_def manager_defs input_defs)

lemma auto_restarts_reloaded: "auto_restarts alpha_reloaded ''alpha'' = 0"
  by (simp add: observation_defs manager_defs input_defs)

text \<open>
  A turn of the monitor on a parked \<open>alpha\<close> whose binary is missing: one more
  automatic restart is attempted, and \<open>alpha\<close> is parked as before, with the restart
  count it had, because the branch of line 396 calls \<^verbatim>\<open>start_server\<close> without counting.
\<close>

lemma parked_alpha_tick:
  assumes "parked_alpha c s" and "c < 2"
  shows "\<exists>s'. monitor_tick os_no_binary 30 s = (None, s') \<and> parked_alpha c s' \<and>
              auto_restarts s' ''alpha'' = Suc (auto_restarts s ''alpha'')"
proof -
  from assms(1) obtain server where
    cfg: "server_configs s = [(''alpha'', alpha_config)]" and
    sv: "servers s ''alpha'' = Some server" and
    st: "status server \<noteq> ''running''" and rc: "restart_count server = c"
    by (auto simp: parked_alpha_def split: option.splits)
  from assms(1) have en: "monitoring_enabled s"
    by (simp add: parked_alpha_def)
  show ?thesis
    using cfg sv st rc en assms(2)
    by (simp add: parked_alpha_def observation_defs manager_defs input_defs)
qed

lemma parked_alpha_run:
  assumes "c < 2"
  shows "parked_alpha c s \<Longrightarrow>
   parked_alpha c (monitor_servers (replicate k os_no_binary) 30 s) \<and>
   auto_restarts (monitor_servers (replicate k os_no_binary) 30 s) ''alpha''
     = auto_restarts s ''alpha'' + k"
proof (induction k arbitrary: s)
  case 0
  then show ?case by simp
next
  case (Suc k)
  from parked_alpha_tick [OF Suc.prems assms] obtain s' where
    t: "monitor_tick os_no_binary 30 s = (None, s')" and p: "parked_alpha c s'" and
    c: "auto_restarts s' ''alpha'' = Suc (auto_restarts s ''alpha'')"
    by blast
  from Suc.prems have "monitoring_enabled s"
    by (simp add: parked_alpha_def)
  with t Suc.IH [OF p] c show ?case by simp
qed

lemma parked_alpha_restart_count: "parked_alpha c s \<Longrightarrow> restart_count_of s ''alpha'' = Some c"
  by (auto simp: parked_alpha_def restart_count_of_def split: option.splits)

text \<open>
  C1 (the code does not bound the automatic restarts). \<open>alpha\<close> has
  \<open>max_restarts = 2\<close>. In the first run it was started, its process vanished and the
  monitor marked it stopped; in the second run a new session found its record, with a
  restart count of 1, and no process with its pid. From then on its binary is
  missing. In every run of \<open>k\<close> further turns the monitor attempts \<open>k\<close> automatic
  restarts, one per turn, and the restart count it compares with \<open>max_restarts\<close> is
  after each of them what it was, 0 or 1: the count never reaches the bound, and the
  server is never parked.
\<close>

theorem monitor_restarts_unbounded:
  "max_restarts alpha_config = 2 \<and>
   (\<forall>k. auto_restarts (monitor_servers (replicate k os_no_binary) 30 alpha_vanished) ''alpha'' = k \<and>
        restart_count_of (monitor_servers (replicate k os_no_binary) 30 alpha_vanished) ''alpha'' = Some 0 \<and>
        auto_restarts (monitor_servers (replicate k os_no_binary) 30 alpha_reloaded) ''alpha'' = k \<and>
        restart_count_of (monitor_servers (replicate k os_no_binary) 30 alpha_reloaded) ''alpha'' = Some 1)"
proof -
  have "max_restarts alpha_config = 2"
    by (simp add: alpha_config_def)
  moreover have "auto_restarts (monitor_servers (replicate k os_no_binary) 30 alpha_vanished) ''alpha'' = k" for k
    using parked_alpha_run [OF _ parked_alpha_vanished, of k] by (simp add: auto_restarts_vanished)
  moreover have "restart_count_of (monitor_servers (replicate k os_no_binary) 30 alpha_vanished) ''alpha'' = Some 0" for k
    using parked_alpha_run [OF _ parked_alpha_vanished, of k] by (simp add: parked_alpha_restart_count)
  moreover have "auto_restarts (monitor_servers (replicate k os_no_binary) 30 alpha_reloaded) ''alpha'' = k" for k
    using parked_alpha_run [OF _ parked_alpha_reloaded, of k] by (simp add: auto_restarts_reloaded)
  moreover have "restart_count_of (monitor_servers (replicate k os_no_binary) 30 alpha_reloaded) ''alpha'' = Some 1" for k
    using parked_alpha_run [OF _ parked_alpha_reloaded, of k] by (simp add: parked_alpha_restart_count)
  ultimately show ?thesis by blast
qed

subsection \<open>Reconciliation at start-up\<close>

text \<open>
  C5 (the code does not adopt a live process). The runtime directory holds the record
  of \<open>alpha\<close> with pid 4242, and the process table has a running process 4242. Line 340
  calls \<^verbatim>\<open>subprocess.Popen([])\<close>, which raises; the outer handler logs the failure and
  the server gets no runtime entry at all, neither running nor stopped.
\<close>

theorem load_live_pid_not_adopted:
  "psutil_Process os_quiet 4242 = Process True (Some 0) (Some 0) \<and>
   servers (load_server_states os_quiet (init_manager [(''alpha'', alpha_config)] [(''alpha'', Json alpha_record)]))
     ''alpha'' = None \<and>
   trace (load_server_states os_quiet (init_manager [(''alpha'', alpha_config)] [(''alpha'', Json alpha_record)]))
     = [Log ERROR ''Failed to load server state'' ''alpha'']"
  by (simp add: manager_defs input_defs)

subsection \<open>The restart count\<close>

























end
